theory Spec2Isabelle
  imports Complex_Main "HOL-Library.Log_Nat"
begin

section \<open>The progress bar of \<^verbatim>\<open>schollz/progressbar\<close>, as vendored\<close>

text \<open>
  The development embeds \<^verbatim>\<open>progressbar.go\<close>: the tracker's state and configuration,
  the option functions, \<^verbatim>\<open>NewOptions\<close>, \<^verbatim>\<open>RenderBlank\<close>, \<^verbatim>\<open>Reset\<close>, \<^verbatim>\<open>Add\<close> and
  \<^verbatim>\<open>renderProgressBar\<close>.

  Conventions of the embedding.
  \<^item> Go's \<^verbatim>\<open>int\<close> is the 64-bit integer of the usual platforms. Its values are HOL
    integers between \<open>MinInt64\<close> and \<open>MaxInt64\<close>, and every addition, subtraction and
    multiplication of the program is followed by \<open>wrap64\<close>, the wrap-around of the
    machine. Arguments of type \<^verbatim>\<open>int\<close> are meant within that range.
  \<^item> A \<^verbatim>\<open>float64\<close> is the rational number it denotes. Every floating-point operation
    computes the exact result and rounds it to 53 significant bits, ties to even
    (\<open>rnd\<close>). The exponent is unbounded: from machine integers the operations of this
    program never reach the subnormal range, infinity or NaN.
  \<^item> The conversion of a \<^verbatim>\<open>float64\<close> to \<^verbatim>\<open>int\<close> truncates towards zero. For a value
    outside the range of \<^verbatim>\<open>int\<close> the language leaves the result to the implementation;
    the model gives \<open>MinInt64\<close>, the result on amd64. The statements about stored
    values say where they depend on the value being in range.
  \<^item> The clock and the sink are inputs: a \<open>world\<close> gives the readings that the calls
    of \<^verbatim>\<open>time.Since\<close> see and the answers of the sink to \<^verbatim>\<open>io.WriteString\<close> and
    \<^verbatim>\<open>Sync\<close>. What a call does to the sink is returned as a list of events. A sink
    that is not nil answers by returning, with an error or without; writing to the nil
    writer panics.
  \<^item> A function that can panic returns \<open>Panics msg\<close>; otherwise \<open>Returns v\<close>. Memory is
    not bounded: no allocation fails.
  \<^item> The lock is not modelled: every operation is one atomic step.
\<close>

subsection \<open>Machine integers\<close>

definition MaxInt64 :: int where
  "MaxInt64 = 9223372036854775807"

definition MinInt64 :: int where
  "MinInt64 = - 9223372036854775808"

definition is_int64 :: "int \<Rightarrow> bool" where
  "is_int64 i \<longleftrightarrow> MinInt64 \<le> i \<and> i \<le> MaxInt64"

text \<open>The value that the 64 low bits of \<open>i\<close> denote in two's complement.\<close>

definition wrap64 :: "int \<Rightarrow> int" where
  "wrap64 i = (i + 9223372036854775808) mod 18446744073709551616 - 9223372036854775808"

definition add64 :: "int \<Rightarrow> int \<Rightarrow> int" where
  "add64 a b = wrap64 (a + b)"

definition sub64 :: "int \<Rightarrow> int \<Rightarrow> int" where
  "sub64 a b = wrap64 (a - b)"

definition mul64 :: "int \<Rightarrow> int \<Rightarrow> int" where
  "mul64 a b = wrap64 (a * b)"

subsection \<open>\<^verbatim>\<open>float64\<close>\<close>

definition pow2 :: "int \<Rightarrow> rat" where
  "pow2 k = (if 0 \<le> k then 2 ^ nat k else 1 / 2 ^ nat (- k))"

text \<open>For \<open>0 < q\<close>, \<open>ilog2 q\<close> is the exponent \<open>k\<close> with \<open>2\<^sup>k \<le> q < 2\<^sup>k\<^sup>+\<^sup>1\<close>.\<close>

definition ilog2 :: "rat \<Rightarrow> int" where
  "ilog2 q = (if 1 \<le> q then bitlen \<lfloor>q\<rfloor> - 1 else - bitlen (\<lceil>1 / q\<rceil> - 1))"

definition round_half_even :: "rat \<Rightarrow> int" where
  "round_half_even x =
     (let f = \<lfloor>x\<rfloor>; r = x - of_int f
      in if r < 1 / 2 then f
         else if 1 / 2 < r then f + 1
         else if even f then f else f + 1)"

definition round53 :: "rat \<Rightarrow> rat" where
  "round53 q = (let e = ilog2 q - 52 in of_int (round_half_even (q / pow2 e)) * pow2 e)"

definition rnd :: "rat \<Rightarrow> rat" where
  "rnd q = (if q = 0 then 0 else if 0 < q then round53 q else - round53 (- q))"

definition float64 :: "int \<Rightarrow> rat" where
  "float64 n = rnd (of_int n)"

definition fadd :: "rat \<Rightarrow> rat \<Rightarrow> rat" where
  "fadd x y = rnd (x + y)"

definition fsub :: "rat \<Rightarrow> rat \<Rightarrow> rat" where
  "fsub x y = rnd (x - y)"

definition fmul :: "rat \<Rightarrow> rat \<Rightarrow> rat" where
  "fmul x y = rnd (x * y)"

definition fdiv :: "rat \<Rightarrow> rat \<Rightarrow> rat" where
  "fdiv x y = rnd (x / y)"

text \<open>The conversion \<^verbatim>\<open>int(x)\<close> of a \<^verbatim>\<open>float64\<close> discards the fraction: it truncates
  towards zero (\<open>trunc\<close>). When the truncation is no \<^verbatim>\<open>int\<close>, the result is \<open>MinInt64\<close>.\<close>

definition trunc :: "rat \<Rightarrow> int" where
  "trunc x = (if 0 \<le> x then \<lfloor>x\<rfloor> else - \<lfloor>- x\<rfloor>)"

definition fits_int64 :: "rat \<Rightarrow> bool" where
  "fits_int64 x \<longleftrightarrow> is_int64 (trunc x)"

definition int_of_float :: "rat \<Rightarrow> int" where
  "int_of_float x = (if fits_int64 x then trunc x else MinInt64)"

subsection \<open>Integer division, time and durations\<close>

text \<open>Go's \<^verbatim>\<open>/\<close> and \<^verbatim>\<open>%\<close> on integers truncate towards zero.\<close>

definition quo :: "int \<Rightarrow> int \<Rightarrow> int" where
  "quo a b = sgn a * sgn b * (\<bar>a\<bar> div \<bar>b\<bar>)"

definition rem :: "int \<Rightarrow> int \<Rightarrow> int" where
  "rem a b = a - b * quo a b"

text \<open>A \<^verbatim>\<open>time.Time\<close> is a clock reading in nanoseconds, a \<^verbatim>\<open>time.Duration\<close> a number of
  nanoseconds.\<close>

type_synonym Time = int
type_synonym Duration = int

definition Second :: Duration where
  "Second = 1000000000"

definition Since :: "Time \<Rightarrow> Time \<Rightarrow> Duration" where
  "Since clock t = clock - t"

definition Seconds :: "Duration \<Rightarrow> rat" where
  "Seconds d = fadd (float64 (quo d Second)) (fdiv (float64 (rem d Second)) 1000000000)"

subsection \<open>Strings\<close>

definition digit_char :: "nat \<Rightarrow> char" where
  "digit_char d = ''0123456789'' ! d"

function decimal :: "int \<Rightarrow> string" where
  "decimal n =
     (if n < 10 then [digit_char (nat n)]
      else decimal (n div 10) @ [digit_char (nat (n mod 10))])"
  by pat_completeness auto
termination
  by (relation "measure nat") auto

declare decimal.simps [simp del]

definition fmt_d :: "int \<Rightarrow> string" where
  "fmt_d i = (if i < 0 then ''-'' @ decimal (- i) else decimal i)"

text \<open>The verb \<^verbatim>\<open>%4d\<close>: decimal, padded with spaces on the left to four characters.\<close>

definition fmt_4d :: "int \<Rightarrow> string" where
  "fmt_4d i = replicate (4 - length (fmt_d i)) (CHR '' '') @ fmt_d i"

text \<open>\<^verbatim>\<open>Duration.String\<close>, with its helpers \<^verbatim>\<open>fmtInt\<close> (which is \<open>decimal\<close>) and
  \<^verbatim>\<open>fmtFrac\<close>. \<open>fmtFrac v prec\<close> prints the last \<open>prec\<close> decimal digits of \<open>v\<close> behind a
  point, without trailing zeros, and nothing when they are all zero; the loop of the
  source runs from the last digit to the first and starts printing at the first digit
  that is not zero.\<close>

fun fmtFrac_loop :: "int \<Rightarrow> nat \<Rightarrow> bool \<Rightarrow> string" where
  "fmtFrac_loop v 0 print = (if print then ''.'' else [])"
| "fmtFrac_loop v (Suc i) print =
     (let digit = v mod 10; print' = (print \<or> digit \<noteq> 0)
      in fmtFrac_loop (v div 10) i print' @ (if print' then [digit_char (nat digit)] else []))"

definition fmtFrac :: "int \<Rightarrow> nat \<Rightarrow> string" where
  "fmtFrac v prec = fmtFrac_loop v prec False"

text \<open>Below one second the unit is the largest of ns, \<open>\<mu>\<close>s and ms that leaves a leading
  digit; from one second on, hours and minutes appear once they are not zero. \<open>u\<close> is the
  magnitude of the duration, which the source holds in a \<^verbatim>\<open>uint64\<close>.\<close>

definition Duration_String :: "Duration \<Rightarrow> string" where
  "Duration_String d =
     (let u = \<bar>d\<bar>;
          body =
            (if u < 1000000000
             then (if u < 1000 then decimal u @ fmtFrac u 0 @ ''ns''
                   else if u < 1000000
                   then decimal (u div 1000) @ fmtFrac u 3 @ [CHR 0xC2, CHR 0xB5] @ ''s''
                   else decimal (u div 1000000) @ fmtFrac u 6 @ ''ms'')
             else (let secs = u div 1000000000;
                       s = decimal (secs mod 60) @ fmtFrac u 9 @ ''s'';
                       m = (if 0 < secs div 60 then decimal (secs div 60 mod 60) @ ''m'' else []);
                       h = (if 0 < secs div 60 div 60 then decimal (secs div 60 div 60) @ ''h''
                            else [])
                   in h @ m @ s))
      in if u = 0 then ''0s'' else (if d < 0 then ''-'' else []) @ body)"

datatype 'a result = Returns 'a | Panics string

text \<open>\<^verbatim>\<open>strings.Repeat\<close> panics on a negative count and when the length of the result,
  \<^verbatim>\<open>len(s) * count\<close>, is no \<^verbatim>\<open>int\<close>.\<close>

definition Repeat :: "string \<Rightarrow> int \<Rightarrow> string result" where
  "Repeat s count =
     (if count < 0 then Panics ''strings: negative Repeat count''
      else if MaxInt64 < int (length s) * count
      then Panics ''strings: Repeat output length overflow''
      else Returns (concat (replicate (nat count) s)))"

subsection \<open>The data model\<close>

datatype error = errors_New string | sink_error string

text \<open>An \<^verbatim>\<open>io.Writer\<close>: nil, a \<^verbatim>\<open>*os.File\<close>, or a writer of another type.\<close>

datatype writer = nil_Writer | os_File nat | other_Writer nat

definition os_Stdout :: writer where
  "os_Stdout = os_File 1"

fun is_os_File :: "writer \<Rightarrow> bool" where
  "is_os_File (os_File _) = True"
| "is_os_File (other_Writer _) = False"
| "is_os_File nil_Writer = False"

datatype event = WriteString writer string | Sync writer

record world =
  clock_left :: Time
  clock_elapsed :: Time
  write_result :: "error option"
  sync_result :: "error option"

record state =
  currentNum :: int
  currentPercent :: int
  lastPercent :: int
  currentSaucerSize :: int
  lastShown :: Time
  startTime :: Time

record Theme =
  Saucer :: string
  SaucerPadding :: string
  BarStart :: string
  BarEnd :: string

record config =
  max_c :: int
  width :: int
  writer :: writer
  theme :: Theme
  renderWithBlankState :: bool

record ProgressBar =
  state :: state
  config :: config

datatype Option =
    OptionSetWidth int
  | OptionSetTheme Theme
  | OptionSetWriter writer
  | OptionSetRenderBlankState bool

text \<open>Calling an option on the bar under construction.\<close>

fun apply_Option :: "Option \<Rightarrow> ProgressBar \<Rightarrow> ProgressBar" where
  "apply_Option (OptionSetWidth s) p = p\<lparr>config := (config p)\<lparr>width := s\<rparr>\<rparr>"
| "apply_Option (OptionSetTheme t) p = p\<lparr>config := (config p)\<lparr>theme := t\<rparr>\<rparr>"
| "apply_Option (OptionSetWriter w) p = p\<lparr>config := (config p)\<lparr>writer := w\<rparr>\<rparr>"
| "apply_Option (OptionSetRenderBlankState r) p =
     p\<lparr>config := (config p)\<lparr>renderWithBlankState := r\<rparr>\<rparr>"

definition defaultTheme :: Theme where
  "defaultTheme =
     \<lparr>Saucer = [CHR 0xE2, CHR 0x96, CHR 0x88], SaucerPadding = '' '',
      BarStart = ''|'', BarEnd = ''|''\<rparr>"

subsection \<open>The operations\<close>

definition getBlankState :: "Time \<Rightarrow> state" where
  "getBlankState now =
     \<lparr>currentNum = 0, currentPercent = 0, lastPercent = 0, currentSaucerSize = 0,
      lastShown = now, startTime = now\<rparr>"

text \<open>The call of \<^verbatim>\<open>fmt.Sprintf\<close> in \<^verbatim>\<open>renderProgressBar\<close>, with its format
  \<^verbatim>\<open>"\r%4d%% %s%s%s%s [%s:%s]            "\<close>.\<close>

definition Sprintf_bar ::
  "int \<Rightarrow> string \<Rightarrow> string \<Rightarrow> string \<Rightarrow> string \<Rightarrow> string \<Rightarrow> string \<Rightarrow> string" where
  "Sprintf_bar percent barStart saucers padding barEnd elapsed left =
     [CHR 0x0D] @ fmt_4d percent @ ''% '' @ barStart @ saucers @ padding @ barEnd
     @ '' ['' @ elapsed @ '':'' @ left @ '']            ''"

definition renderProgressBar :: "config \<Rightarrow> state \<Rightarrow> world \<Rightarrow> error option result \<times> event list" where
  "renderProgressBar c s w =
     (let leftTime =
            (if 0 < currentNum s
             then fmul (fdiv (Seconds (Since (clock_left w) (startTime s))) (float64 (currentNum s)))
                       (fsub (float64 (max_c c)) (float64 (currentNum s)))
             else 0)
      in case Repeat (Saucer (theme c)) (currentSaucerSize s) of
           Panics msg \<Rightarrow> (Panics msg, [])
         | Returns saucers \<Rightarrow>
             (case Repeat (SaucerPadding (theme c)) (sub64 (width c) (currentSaucerSize s)) of
                Panics msg \<Rightarrow> (Panics msg, [])
              | Returns padding \<Rightarrow>
                  (let str = Sprintf_bar (currentPercent s) (BarStart (theme c)) saucers padding
                               (BarEnd (theme c))
                               (Duration_String
                                  (mul64
                                     (int_of_float (Seconds (Since (clock_elapsed w) (startTime s))))
                                     Second))
                               (Duration_String (mul64 (int_of_float leftTime) Second))
                   in if writer c = nil_Writer
                      then (Panics ''runtime error: invalid memory address or nil pointer dereference'',
                            [])
                      else case write_result w of
                        Some err \<Rightarrow> (Returns (Some err), [WriteString (writer c) str])
                      | None \<Rightarrow>
                          if is_os_File (writer c)
                          then (Returns (sync_result w), [WriteString (writer c) str, Sync (writer c)])
                          else (Returns None, [WriteString (writer c) str]))))"

definition RenderBlank :: "ProgressBar \<Rightarrow> world \<Rightarrow> error option result \<times> event list" where
  "RenderBlank p w = renderProgressBar (config p) (state p) w"

definition Reset :: "ProgressBar \<Rightarrow> Time \<Rightarrow> ProgressBar" where
  "Reset p now = p\<lparr>state := getBlankState now\<rparr>"

definition Add :: "ProgressBar \<Rightarrow> int \<Rightarrow> world \<Rightarrow> error option result \<times> ProgressBar \<times> event list" where
  "Add p num w =
     (if max_c (config p) = 0
      then (Returns (Some (errors_New ''max must be greater than 0'')), p, [])
      else
        let s1 = (state p)\<lparr>currentNum := add64 (currentNum (state p)) num\<rparr>;
            percent = fdiv (float64 (currentNum s1)) (float64 (max_c (config p)));
            s2 = s1\<lparr>currentSaucerSize := int_of_float (fmul percent (float64 (width (config p))))\<rparr>;
            s3 = s2\<lparr>currentPercent := int_of_float (fmul percent 100)\<rparr>;
            updateBar = (currentPercent s3 \<noteq> lastPercent s3 \<and> 0 < currentPercent s3);
            s4 = s3\<lparr>lastPercent := currentPercent s3\<rparr>;
            p' = p\<lparr>state := s4\<rparr>
        in if max_c (config p) < currentNum s4
           then (Returns (Some (errors_New ''current number exceeds max'')), p', [])
           else if updateBar
           then (case renderProgressBar (config p') (state p') w of (r, evs) \<Rightarrow> (r, p', evs))
           else (Returns None, p', []))"

text \<open>\<^verbatim>\<open>NewOptions\<close> reads the clock once, for the blank state. It discards what
  \<^verbatim>\<open>RenderBlank\<close> returns; a panic of the rendering is not caught.\<close>

definition NewOptions ::
  "int \<Rightarrow> Option list \<Rightarrow> Time \<Rightarrow> world \<Rightarrow> ProgressBar result \<times> event list" where
  "NewOptions mx options now w =
     (let b = \<lparr>state = getBlankState now,
               config = \<lparr>max_c = mx, width = 40, writer = os_Stdout, theme = defaultTheme,
                         renderWithBlankState = False\<rparr>\<rparr>;
          b' = foldl (\<lambda>b opt. apply_Option opt b) b options
      in if renderWithBlankState (config b')
         then (case RenderBlank b' w of
                 (Panics msg, evs) \<Rightarrow> (Panics msg, evs)
               | (Returns _, evs) \<Rightarrow> (Returns b', evs))
         else (Returns b', []))"

definition New :: "int \<Rightarrow> Time \<Rightarrow> world \<Rightarrow> ProgressBar result \<times> event list" where
  "New mx now w = NewOptions mx [] now w"

subsection \<open>Derived notions used in the statements\<close>

text \<open>The two values that \<^verbatim>\<open>Add\<close> stores for a count \<open>n\<close>: the expressions of its lines
  142 to 144, named.\<close>

definition percent_of :: "config \<Rightarrow> int \<Rightarrow> int" where
  "percent_of c n = int_of_float (fmul (fdiv (float64 n) (float64 (max_c c))) 100)"

definition saucer_of :: "config \<Rightarrow> int \<Rightarrow> int" where
  "saucer_of c n =
     int_of_float (fmul (fdiv (float64 n) (float64 (max_c c))) (float64 (width c)))"

text \<open>The tracker that \<^verbatim>\<open>Add(num)\<close> leaves behind when \<open>max\<close> is not zero (lemma
  \<open>Add_after\<close> below).\<close>

definition after_Add :: "ProgressBar \<Rightarrow> int \<Rightarrow> ProgressBar" where
  "after_Add p num =
     p\<lparr>state := (state p)\<lparr>currentNum := add64 (currentNum (state p)) num,
        currentSaucerSize := saucer_of (config p) (add64 (currentNum (state p)) num),
        currentPercent := percent_of (config p) (add64 (currentNum (state p)) num),
        lastPercent := percent_of (config p) (add64 (currentNum (state p)) num)\<rparr>\<rparr>"

text \<open>The two \<^verbatim>\<open>float64\<close> products that \<^verbatim>\<open>Add\<close> converts.\<close>

definition percent_product :: "config \<Rightarrow> int \<Rightarrow> rat" where
  "percent_product c n = fmul (fdiv (float64 n) (float64 (max_c c))) 100"

definition saucer_product :: "config \<Rightarrow> int \<Rightarrow> rat" where
  "saucer_product c n = fmul (fdiv (float64 n) (float64 (max_c c))) (float64 (width c))"

text \<open>The same two values as the specification words them, with a floor in place of the
  conversion.\<close>

definition spec_percent :: "config \<Rightarrow> int \<Rightarrow> int" where
  "spec_percent c n = \<lfloor>fmul (fdiv (float64 n) (float64 (max_c c))) 100\<rfloor>"

definition spec_fill_width :: "config \<Rightarrow> int \<Rightarrow> int" where
  "spec_fill_width c n = \<lfloor>fmul (fdiv (float64 n) (float64 (max_c c))) (float64 (width c))\<rfloor>"

text \<open>The decision \<^verbatim>\<open>updateBar\<close> of \<^verbatim>\<open>Add\<close>, from the state before the call and the state
  after it.\<close>

definition shouldRedraw :: "ProgressBar \<Rightarrow> ProgressBar \<Rightarrow> bool" where
  "shouldRedraw p p' \<longleftrightarrow>
     currentPercent (state p') \<noteq> lastPercent (state p) \<and> 0 < currentPercent (state p')"

text \<open>Whether a list of events holds a write to the sink of the tracker.\<close>

fun is_write :: "writer \<Rightarrow> event \<Rightarrow> bool" where
  "is_write wr (WriteString wr' line) \<longleftrightarrow> wr' = wr"
| "is_write wr (Sync wr') \<longleftrightarrow> False"

definition writes_to_sink :: "ProgressBar \<Rightarrow> event list \<Rightarrow> bool" where
  "writes_to_sink p evs \<longleftrightarrow> list_ex (is_write (writer (config p))) evs"

fun panics :: "'a result \<Rightarrow> bool" where
  "panics (Panics _) = True"
| "panics (Returns _) = False"

text \<open>The bar that \<^verbatim>\<open>NewOptions\<close> has built when its loop over the options ends.\<close>

definition configured :: "int \<Rightarrow> Option list \<Rightarrow> Time \<Rightarrow> ProgressBar" where
  "configured mx options now =
     foldl (\<lambda>b opt. apply_Option opt b)
       \<lparr>state = getBlankState now,
        config = \<lparr>max_c = mx, width = 40, writer = os_Stdout, theme = defaultTheme,
                  renderWithBlankState = False\<rparr>\<rparr>
       options"

text \<open>The trackers a client can hold: built by \<^verbatim>\<open>NewOptions\<close>, then changed by \<^verbatim>\<open>Reset\<close>
  and \<^verbatim>\<open>Add\<close> only. \<^verbatim>\<open>Add\<close> has changed the state also when it returns an error or
  when its rendering panics.\<close>

inductive reachable :: "ProgressBar \<Rightarrow> bool" where
  constructed: "NewOptions mx options now w = (Returns p, evs) \<Longrightarrow> reachable p"
| reset: "reachable p \<Longrightarrow> reachable (Reset p now)"
| advanced: "reachable p \<Longrightarrow> Add p num w = (r, p', evs) \<Longrightarrow> reachable p'"

text \<open>A sequence of calls of \<^verbatim>\<open>Add\<close>, each with its argument and its world: the tracker at
  the end, and the percentage after each call. The tracker goes on to the next call
  whatever the call returned.\<close>

fun Adds :: "ProgressBar \<Rightarrow> (int \<times> world) list \<Rightarrow> ProgressBar" where
  "Adds p [] = p"
| "Adds p ((num, w) # calls) = Adds (fst (snd (Add p num w))) calls"

fun percents_along :: "ProgressBar \<Rightarrow> (int \<times> world) list \<Rightarrow> int list" where
  "percents_along p [] = []"
| "percents_along p ((num, w) # calls) =
     currentPercent (state (fst (snd (Add p num w)))) # percents_along (fst (snd (Add p num w))) calls"

text \<open>What every reachable tracker satisfies.\<close>

definition tracker_inv :: "ProgressBar \<Rightarrow> bool" where
  "tracker_inv p \<longleftrightarrow>
     currentPercent (state p) = percent_of (config p) (currentNum (state p)) \<and>
     lastPercent (state p) = currentPercent (state p) \<and>
     currentSaucerSize (state p) = saucer_of (config p) (currentNum (state p)) \<and>
     (max_c (config p) = 0 \<longrightarrow> currentNum (state p) = 0) \<and>
     is_int64 (currentNum (state p))"

text \<open>A sequence of calls of \<^verbatim>\<open>Add\<close> in which no argument is negative, no count wraps
  around and every percentage product is in the range of \<^verbatim>\<open>int\<close>.\<close>

fun in_range_calls :: "ProgressBar \<Rightarrow> (int \<times> world) list \<Rightarrow> bool" where
  "in_range_calls p [] \<longleftrightarrow> True"
| "in_range_calls p ((num, w) # calls) \<longleftrightarrow>
     0 \<le> num \<and> currentNum (state p) + num \<le> MaxInt64 \<and>
     fits_int64 (percent_product (config p) (currentNum (state p) + num)) \<and>
     in_range_calls (fst (snd (Add p num w))) calls"

subsection \<open>Concrete worlds and trackers\<close>

text \<open>A world five seconds after time 0 whose sink accepts every write, and one whose sink
  rejects them.\<close>

definition quiet_world :: world where
  "quiet_world =
     \<lparr>clock_left = 5000000000, clock_elapsed = 5000000000, write_result = None,
      sync_result = None\<rparr>"

definition broken_world :: world where
  "broken_world =
     \<lparr>clock_left = 5000000000, clock_elapsed = 5000000000,
      write_result = Some (sink_error ''closed pipe''), sync_result = None\<rparr>"

text \<open>\<open>bar mx wd\<close> is what \<^verbatim>\<open>NewOptions(mx, OptionSetWidth(wd))\<close> returns at time 0.\<close>

definition bar :: "int \<Rightarrow> int \<Rightarrow> ProgressBar" where
  "bar mx wd =
     \<lparr>state = getBlankState 0,
      config = \<lparr>max_c = mx, width = wd, writer = os_Stdout, theme = defaultTheme,
                renderWithBlankState = False\<rparr>\<rparr>"

text \<open>\<open>advanced_bar mx wd n\<close> is that tracker after \<^verbatim>\<open>Add(n)\<close> in the quiet world.\<close>

definition advanced_bar :: "int \<Rightarrow> int \<Rightarrow> int \<Rightarrow> ProgressBar" where
  "advanced_bar mx wd n = fst (snd (Add (bar mx wd) n quiet_world))"

text \<open>What \<^verbatim>\<open>NewOptions\<close> returns at time 0 for \<open>max = 2\<^sup>6\<^sup>2\<close>, the width \<open>MinInt64\<close> and a
  theme whose padding is the empty string.\<close>

definition wrapping_bar :: ProgressBar where
  "wrapping_bar =
     \<lparr>state = getBlankState 0,
      config = \<lparr>max_c = 4611686018427387904, width = MinInt64, writer = os_Stdout,
                theme = \<lparr>Saucer = ''#'', SaucerPadding = [], BarStart = ''|'', BarEnd = ''|''\<rparr>,
                renderWithBlankState = False\<rparr>\<rparr>"

section \<open>Properties of the rounding\<close>

lemma pow2_powi: "pow2 k = 2 powi k"
  by (simp add: pow2_def power_int_def inverse_eq_divide power_one_over)

lemma pow2_pos: "0 < pow2 k"
  by (simp add: pow2_powi)

lemma pow2_add: "pow2 (a + b) = pow2 a * pow2 b"
  by (simp add: pow2_powi power_int_add)

lemma pow2_minus: "pow2 (- k) = 1 / pow2 k"
  by (simp add: pow2_powi power_int_minus inverse_eq_divide)

lemma pow2_mono: "a \<le> b \<Longrightarrow> pow2 a \<le> pow2 b"
  by (simp add: pow2_powi power_int_increasing)

lemma pow2_nat: "0 \<le> k \<Longrightarrow> pow2 k = 2 ^ nat k"
  by (simp add: pow2_def)

lemma bitlen_pow2_bounds:
  assumes "0 < n"
  shows "pow2 (bitlen n - 1) \<le> of_int n" and "of_int n < pow2 (bitlen n)"
proof -
  have b: "1 \<le> bitlen n" using assms by (simp add: bitlen_alt_def)
  from bitlen_bounds [OF assms]
  have lo: "2 ^ nat (bitlen n - 1) \<le> n" and hi: "n < 2 ^ nat (bitlen n)" by simp_all
  have "(of_int (2 ^ nat (bitlen n - 1)) :: rat) \<le> of_int n"
    using lo by (simp only: of_int_le_iff)
  then show "pow2 (bitlen n - 1) \<le> of_int n" using b by (simp add: pow2_nat)
  have "(of_int n :: rat) < of_int (2 ^ nat (bitlen n))"
    using hi by (simp only: of_int_less_iff)
  then show "of_int n < pow2 (bitlen n)" using b by (simp add: pow2_nat)
qed

lemma ilog2_lower:
  assumes "0 < q"
  shows "pow2 (ilog2 q) \<le> q"
proof (cases "1 \<le> q")
  case True
  then have n: "0 < \<lfloor>q\<rfloor>" by simp
  have "pow2 (bitlen \<lfloor>q\<rfloor> - 1) \<le> of_int \<lfloor>q\<rfloor>" by (rule bitlen_pow2_bounds [OF n])
  also have "\<dots> \<le> q" by simp
  finally show ?thesis using True by (simp add: ilog2_def)
next
  case False
  define c where "c = \<lceil>1 / q\<rceil>"
  have y: "1 < 1 / q" using False assms by simp
  then have c: "0 < c - 1" unfolding c_def by linarith
  have "(of_int (c - 1) :: rat) < pow2 (bitlen (c - 1))" by (rule bitlen_pow2_bounds [OF c])
  moreover have "pow2 (bitlen (c - 1)) = of_int (2 ^ nat (bitlen (c - 1)))"
    by (simp add: pow2_nat bitlen_nonneg)
  ultimately have "c - 1 < 2 ^ nat (bitlen (c - 1))" by (simp only: of_int_less_iff)
  then have "c \<le> 2 ^ nat (bitlen (c - 1))" by simp
  then have "(of_int c :: rat) \<le> of_int (2 ^ nat (bitlen (c - 1)))" by (simp only: of_int_le_iff)
  then have "(of_int c :: rat) \<le> pow2 (bitlen (c - 1))" by (simp add: pow2_nat bitlen_nonneg)
  moreover have "1 / q \<le> of_int c" unfolding c_def by simp
  ultimately have "1 / q \<le> pow2 (bitlen (c - 1))" by simp
  then have "1 / pow2 (bitlen (c - 1)) \<le> q"
    using assms pow2_pos [of "bitlen (c - 1)"] by (simp add: field_simps)
  then show ?thesis using False by (simp add: ilog2_def pow2_minus c_def)
qed

lemma ilog2_upper:
  assumes "0 < q"
  shows "q < pow2 (ilog2 q + 1)"
proof (cases "1 \<le> q")
  case True
  then have n: "0 < \<lfloor>q\<rfloor>" by simp
  have "q < of_int (\<lfloor>q\<rfloor> + 1)" by linarith
  also have "\<dots> \<le> pow2 (bitlen \<lfloor>q\<rfloor>)"
  proof -
    have "(of_int \<lfloor>q\<rfloor> :: rat) < pow2 (bitlen \<lfloor>q\<rfloor>)" by (rule bitlen_pow2_bounds [OF n])
    moreover have "pow2 (bitlen \<lfloor>q\<rfloor>) = of_int (2 ^ nat (bitlen \<lfloor>q\<rfloor>))"
      by (simp add: pow2_nat bitlen_nonneg)
    ultimately have "\<lfloor>q\<rfloor> < 2 ^ nat (bitlen \<lfloor>q\<rfloor>)" by (simp only: of_int_less_iff)
    then have "\<lfloor>q\<rfloor> + 1 \<le> 2 ^ nat (bitlen \<lfloor>q\<rfloor>)" by simp
    then have "(of_int (\<lfloor>q\<rfloor> + 1) :: rat) \<le> of_int (2 ^ nat (bitlen \<lfloor>q\<rfloor>))"
      by (simp only: of_int_le_iff)
    then show ?thesis by (simp add: pow2_nat bitlen_nonneg)
  qed
  finally show ?thesis using True by (simp add: ilog2_def)
next
  case False
  define c where "c = \<lceil>1 / q\<rceil>"
  have y: "1 < 1 / q" using False assms by simp
  then have c: "0 < c - 1" unfolding c_def by linarith
  have "pow2 (bitlen (c - 1) - 1) \<le> of_int (c - 1)" by (rule bitlen_pow2_bounds [OF c])
  also have "of_int (c - 1) < 1 / q" unfolding c_def by linarith
  finally have "pow2 (bitlen (c - 1) - 1) < 1 / q" .
  then have "q < 1 / pow2 (bitlen (c - 1) - 1)"
    using assms pow2_pos [of "bitlen (c - 1) - 1"] by (simp add: field_simps)
  also have "\<dots> = pow2 (- (bitlen (c - 1) - 1))" by (simp only: pow2_minus)
  finally show ?thesis using False by (simp add: ilog2_def c_def)
qed

lemma ilog2_mono:
  assumes "0 < x" "x \<le> y"
  shows "ilog2 x \<le> ilog2 y"
proof (rule ccontr)
  assume "\<not> ilog2 x \<le> ilog2 y"
  then have "ilog2 y + 1 \<le> ilog2 x" by simp
  then have "pow2 (ilog2 y + 1) \<le> pow2 (ilog2 x)" by (rule pow2_mono)
  also have "\<dots> \<le> x" using assms by (simp add: ilog2_lower)
  also have "\<dots> \<le> y" by fact
  also have "\<dots> < pow2 (ilog2 y + 1)" using assms by (simp add: ilog2_upper)
  finally show False by simp
qed

lemma round_half_even_int: "round_half_even (of_int n) = n"
  by (simp add: round_half_even_def)

lemma round_half_even_mono:
  assumes "x \<le> y"
  shows "round_half_even x \<le> round_half_even y"
proof (cases "\<lfloor>x\<rfloor> = \<lfloor>y\<rfloor>")
  case True
  then show ?thesis using assms
    by (auto simp add: round_half_even_def Let_def)
next
  case False
  then have "\<lfloor>x\<rfloor> < \<lfloor>y\<rfloor>" using assms floor_mono [of x y] by linarith
  moreover have "round_half_even x \<le> \<lfloor>x\<rfloor> + 1" by (simp add: round_half_even_def Let_def)
  moreover have "\<lfloor>y\<rfloor> \<le> round_half_even y" by (simp add: round_half_even_def Let_def)
  ultimately show ?thesis by linarith
qed

lemma round_half_even_ge: "of_int n \<le> x \<Longrightarrow> n \<le> round_half_even x"
  using round_half_even_mono [of "of_int n" x] by (simp add: round_half_even_int)

lemma round_half_even_le: "x \<le> of_int n \<Longrightarrow> round_half_even x \<le> n"
  using round_half_even_mono [of x "of_int n"] by (simp add: round_half_even_int)

lemma round53_bounds:
  assumes "0 < q"
  shows "pow2 (ilog2 q) \<le> round53 q" and "round53 q \<le> pow2 (ilog2 q + 1)"
proof -
  define e where "e = ilog2 q - 52"
  define m where "m = round_half_even (q / pow2 e)"
  have r: "round53 q = of_int m * pow2 e" by (simp add: round53_def Let_def e_def m_def)
  have "ilog2 q = 52 + e" and "ilog2 q + 1 = 53 + e" by (simp_all add: e_def)
  then have p52: "pow2 (ilog2 q) = pow2 52 * pow2 e"
    and p53: "pow2 (ilog2 q + 1) = pow2 53 * pow2 e" by (simp_all only: pow2_add)
  have lo: "pow2 52 * pow2 e \<le> q" using ilog2_lower [OF assms] by (simp only: p52)
  have hi: "q < pow2 53 * pow2 e" using ilog2_upper [OF assms] by (simp only: p53)
  have "of_int (2 ^ 52) \<le> q / pow2 e" using lo pow2_pos [of e] by (simp add: field_simps pow2_def)
  then have "2 ^ 52 \<le> m" unfolding m_def by (rule round_half_even_ge)
  then have "(of_int (2 ^ 52) :: rat) \<le> of_int m" by (simp only: of_int_le_iff)
  then have "pow2 52 * pow2 e \<le> of_int m * pow2 e" using pow2_pos [of e] by (simp add: pow2_def)
  then show "pow2 (ilog2 q) \<le> round53 q" by (simp only: r p52)
  have "q / pow2 e \<le> of_int (2 ^ 53)" using hi pow2_pos [of e] by (simp add: field_simps pow2_def)
  then have "m \<le> 2 ^ 53" unfolding m_def by (rule round_half_even_le)
  then have "(of_int m :: rat) \<le> of_int (2 ^ 53)" by (simp only: of_int_le_iff)
  then have "of_int m * pow2 e \<le> pow2 53 * pow2 e" using pow2_pos [of e] by (simp add: pow2_def)
  then show "round53 q \<le> pow2 (ilog2 q + 1)" by (simp only: r p53)
qed

lemma round53_pos: "0 < q \<Longrightarrow> 0 < round53 q"
  using round53_bounds(1) [of q] pow2_pos [of "ilog2 q"] by linarith

lemma round53_mono:
  assumes "0 < x" "x \<le> y"
  shows "round53 x \<le> round53 y"
proof (cases "ilog2 x = ilog2 y")
  case True
  have "x / pow2 (ilog2 y - 52) \<le> y / pow2 (ilog2 y - 52)"
    using assms pow2_pos [of "ilog2 y - 52"] by (simp add: divide_right_mono)
  then have "round_half_even (x / pow2 (ilog2 y - 52)) \<le> round_half_even (y / pow2 (ilog2 y - 52))"
    by (rule round_half_even_mono)
  then have "(of_int (round_half_even (x / pow2 (ilog2 y - 52))) :: rat)
      \<le> of_int (round_half_even (y / pow2 (ilog2 y - 52)))"
    by (simp only: of_int_le_iff)
  then show ?thesis using True pow2_pos [of "ilog2 y - 52"]
    by (simp add: round53_def Let_def)
next
  case False
  then have "ilog2 x + 1 \<le> ilog2 y" using ilog2_mono [OF assms] by simp
  then have "pow2 (ilog2 x + 1) \<le> pow2 (ilog2 y)" by (rule pow2_mono)
  moreover have "round53 x \<le> pow2 (ilog2 x + 1)" using assms by (simp add: round53_bounds)
  moreover have "pow2 (ilog2 y) \<le> round53 y" using assms by (simp add: round53_bounds)
  ultimately show ?thesis by linarith
qed

lemma rnd_zero: "rnd 0 = 0"
  by (simp add: rnd_def)

lemma rnd_pos: "0 < q \<Longrightarrow> 0 < rnd q"
  by (simp add: rnd_def round53_pos)

lemma rnd_neg: "q < 0 \<Longrightarrow> rnd q < 0"
  by (simp add: rnd_def round53_pos)

lemma rnd_mono:
  assumes "x \<le> y"
  shows "rnd x \<le> rnd y"
proof -
  consider "0 < x" | "x = 0" | "x < 0" "0 \<le> y" | "x < 0" "y < 0" by linarith
  then show ?thesis
  proof cases
    case 1
    then show ?thesis using assms by (simp add: rnd_def round53_mono)
  next
    case 2
    then show ?thesis using assms rnd_pos [of y] by (cases "y = 0") (simp_all add: rnd_zero)
  next
    case 3
    then show ?thesis using rnd_neg [of x] rnd_pos [of y] by (cases "y = 0") (simp_all add: rnd_zero)
  next
    case 4
    then have "round53 (- y) \<le> round53 (- x)" using assms by (simp add: round53_mono)
    then show ?thesis using 4 by (simp add: rnd_def)
  qed
qed

lemma rnd_nonneg: "0 \<le> q \<Longrightarrow> 0 \<le> rnd q"
  using rnd_mono [of 0 q] by (simp add: rnd_zero)

lemma rnd_one: "rnd 1 = 1"
  by code_simp

lemma rnd_hundred: "rnd 100 = 100"
  by code_simp

section \<open>Properties of the machine integers and of the conversion\<close>

lemma wrap64_id: "is_int64 i \<Longrightarrow> wrap64 i = i"
  by (simp add: is_int64_def wrap64_def MinInt64_def MaxInt64_def)

lemma is_int64_wrap64: "is_int64 (wrap64 i)"
proof -
  have "0 \<le> (i + 9223372036854775808) mod 18446744073709551616"
    and "(i + 9223372036854775808) mod 18446744073709551616 < 18446744073709551616"
    by simp_all
  then show ?thesis by (simp add: is_int64_def wrap64_def MinInt64_def MaxInt64_def)
qed

lemma add64_zero: "is_int64 n \<Longrightarrow> add64 n 0 = n"
  by (simp add: add64_def wrap64_id)

lemma add64_id: "is_int64 (a + b) \<Longrightarrow> add64 a b = a + b"
  by (simp add: add64_def wrap64_id)

lemma sub64_negative:
  assumes "a < b" and "b - a \<le> 9223372036854775808"
  shows "sub64 a b < 0"
proof -
  have "is_int64 (a - b)" using assms by (simp add: is_int64_def MinInt64_def MaxInt64_def)
  then have "sub64 a b = a - b" by (simp add: sub64_def wrap64_id)
  then show ?thesis using assms(1) by simp
qed

lemma trunc_mono:
  assumes "x \<le> y"
  shows "trunc x \<le> trunc y"
proof -
  consider "0 \<le> x" | "x < 0" "0 \<le> y" | "x < 0" "y < 0" by linarith
  then show ?thesis
  proof cases
    case 1
    then have "0 \<le> y" using assms by simp
    then show ?thesis using 1 assms by (simp add: trunc_def floor_mono)
  next
    case 2
    have "0 \<le> \<lfloor>- x\<rfloor>" using 2 by simp
    moreover have "0 \<le> \<lfloor>y\<rfloor>" using 2 by simp
    ultimately have "- \<lfloor>- x\<rfloor> \<le> \<lfloor>y\<rfloor>" by linarith
    then show ?thesis using 2 by (simp add: trunc_def)
  next
    case 3
    have "\<lfloor>- y\<rfloor> \<le> \<lfloor>- x\<rfloor>" using assms by (simp add: floor_mono)
    then show ?thesis using 3 by (simp add: trunc_def)
  qed
qed

lemma trunc_floor: "0 \<le> x \<Longrightarrow> trunc x = \<lfloor>x\<rfloor>"
  by (simp add: trunc_def)

lemma fits_int64_zero: "fits_int64 0"
  by (simp add: fits_int64_def trunc_def is_int64_def MinInt64_def MaxInt64_def)

lemma fits_int64_between:
  assumes "0 \<le> x" "x \<le> 100"
  shows "fits_int64 x"
proof -
  have "0 \<le> \<lfloor>x\<rfloor>" using assms(1) by simp
  moreover have "\<lfloor>x\<rfloor> \<le> 100" using assms(2) by (simp add: floor_le_iff)
  ultimately show ?thesis using assms(1)
    by (simp add: fits_int64_def trunc_def is_int64_def MinInt64_def MaxInt64_def)
qed

lemma int_of_float_zero: "int_of_float 0 = 0"
  by (simp add: int_of_float_def fits_int64_zero trunc_def)

lemma int_of_float_fits: "fits_int64 x \<Longrightarrow> int_of_float x = trunc x"
  by (simp add: int_of_float_def)

lemma is_int64_int_of_float: "is_int64 (int_of_float x)"
  by (simp add: int_of_float_def fits_int64_def is_int64_def MinInt64_def MaxInt64_def)

lemma int_of_float_mono:
  assumes "x \<le> y" and "fits_int64 y"
  shows "int_of_float x \<le> int_of_float y"
proof (cases "fits_int64 x")
  case True
  with assms show ?thesis by (simp add: int_of_float_fits trunc_mono)
next
  case False
  have "MinInt64 \<le> trunc y" using assms(2) by (simp add: fits_int64_def is_int64_def)
  with False assms(2) show ?thesis by (simp add: int_of_float_def)
qed

section \<open>Properties of the operations\<close>

lemma NewOptions_bar: "NewOptions mx [OptionSetWidth wd] 0 w = (Returns (bar mx wd), [])"
  by (simp add: NewOptions_def bar_def)

lemma apply_Option_state: "state (apply_Option opt b) = state b"
  by (cases opt) simp_all

lemma foldl_apply_Option_state:
  "state (foldl (\<lambda>b opt. apply_Option opt b) b options) = state b"
  by (induction options arbitrary: b) (simp_all add: apply_Option_state)

lemma configured_state: "state (configured mx options now) = getBlankState now"
  by (simp add: configured_def foldl_apply_Option_state)

lemma NewOptions_configured:
  "NewOptions mx options now w = (Returns p, evs) \<Longrightarrow> p = configured mx options now"
  by (auto simp add: NewOptions_def configured_def Let_def split: if_splits prod.splits result.splits)

lemma float64_zero: "float64 0 = 0"
  by (simp add: float64_def rnd_zero)

lemma float64_mono: "n \<le> n' \<Longrightarrow> float64 n \<le> float64 n'"
  by (simp add: float64_def rnd_mono)

lemma float64_pos: "0 < n \<Longrightarrow> 0 < float64 n"
  by (simp add: float64_def rnd_pos)

lemma float64_nonneg: "0 \<le> n \<Longrightarrow> 0 \<le> float64 n"
  by (simp add: float64_def rnd_nonneg)

lemma fdiv_nonneg: "0 \<le> x \<Longrightarrow> 0 \<le> y \<Longrightarrow> 0 \<le> fdiv x y"
  by (simp add: fdiv_def rnd_nonneg)

lemma fmul_nonneg: "0 \<le> x \<Longrightarrow> 0 \<le> y \<Longrightarrow> 0 \<le> fmul x y"
  by (simp add: fmul_def rnd_nonneg)

lemma percent_of_product: "percent_of c n = int_of_float (percent_product c n)"
  by (simp add: percent_of_def percent_product_def)

lemma saucer_of_product: "saucer_of c n = int_of_float (saucer_product c n)"
  by (simp add: saucer_of_def saucer_product_def)

lemma percent_of_zero: "percent_of c 0 = 0"
  by (simp add: percent_of_def float64_zero fdiv_def fmul_def rnd_zero int_of_float_zero)

lemma saucer_of_zero: "saucer_of c 0 = 0"
  by (simp add: saucer_of_def float64_zero fdiv_def fmul_def rnd_zero int_of_float_zero)

lemma Add_after:
  assumes "max_c (config p) \<noteq> 0"
  shows "fst (snd (Add p num w)) = after_Add p num"
  using assms
  by (simp add: Add_def Let_def percent_of_def saucer_of_def after_Add_def split: prod.splits)

lemma after_Add_fields:
  "currentNum (state (after_Add p num)) = add64 (currentNum (state p)) num"
  "currentPercent (state (after_Add p num)) =
     percent_of (config p) (add64 (currentNum (state p)) num)"
  "lastPercent (state (after_Add p num)) =
     percent_of (config p) (add64 (currentNum (state p)) num)"
  "currentSaucerSize (state (after_Add p num)) =
     saucer_of (config p) (add64 (currentNum (state p)) num)"
  "config (after_Add p num) = config p"
  by (simp_all add: after_Add_def)

lemma Add_max_zero_state: "max_c (config p) = 0 \<Longrightarrow> Add p num w = (r, p', evs) \<Longrightarrow> p' = p"
  by (simp add: Add_def)

lemma Add_config: "config (fst (snd (Add p num w))) = config p"
proof (cases "max_c (config p) = 0")
  case True
  then show ?thesis by (simp add: Add_def)
next
  case False
  then show ?thesis using Add_after [OF False, of num w] by (simp add: after_Add_fields)
qed

lemma tracker_inv_after_Add:
  assumes "max_c (config p) \<noteq> 0"
  shows "tracker_inv (after_Add p num)"
  using assms by (simp add: tracker_inv_def after_Add_fields add64_def is_int64_wrap64)

lemma reachable_inv: "reachable p \<Longrightarrow> tracker_inv p"
proof (induction rule: reachable.induct)
  case (constructed mx options now w p evs)
  then have "p = configured mx options now" by (rule NewOptions_configured)
  then show ?case
    by (simp add: tracker_inv_def configured_state getBlankState_def percent_of_zero
        saucer_of_zero is_int64_def MinInt64_def MaxInt64_def)
next
  case (reset p now)
  then show ?case
    by (simp add: tracker_inv_def Reset_def getBlankState_def percent_of_zero saucer_of_zero
        is_int64_def MinInt64_def MaxInt64_def)
next
  case (advanced p num w r p' evs)
  show ?case
  proof (cases "max_c (config p) = 0")
    case True
    from True advanced(2) have "p' = p" by (rule Add_max_zero_state)
    with advanced(3) show ?thesis by simp
  next
    case False
    from Add_after [OF False, of num w] advanced(2) have "p' = after_Add p num" by simp
    then show ?thesis using False by (simp add: tracker_inv_after_Add)
  qed
qed

lemma Add_exceeds:
  assumes "max_c (config p) \<noteq> 0" "max_c (config p) < add64 (currentNum (state p)) num"
  shows "fst (Add p num w) = Returns (Some (errors_New ''current number exceeds max''))"
    and "snd (snd (Add p num w)) = []"
  using assms by (simp_all add: Add_def Let_def)

lemma Add_not_exceeding:
  assumes "max_c (config p) \<noteq> 0"
    and "add64 (currentNum (state p)) num \<le> max_c (config p)"
  shows "Add p num w =
    (if percent_of (config p) (add64 (currentNum (state p)) num) \<noteq> lastPercent (state p) \<and>
        0 < percent_of (config p) (add64 (currentNum (state p)) num)
     then (fst (renderProgressBar (config p) (state (after_Add p num)) w),
           after_Add p num,
           snd (renderProgressBar (config p) (state (after_Add p num)) w))
     else (Returns None, after_Add p num, []))"
  using assms
  by (simp add: Add_def Let_def percent_of_def saucer_of_def after_Add_def split: prod.splits)

lemma reachable_bar: "reachable (bar mx wd)"
  by (rule reachable.constructed [OF NewOptions_bar])

lemma reachable_Add: "reachable p \<Longrightarrow> reachable (fst (snd (Add p num w)))"
  by (rule reachable.advanced [where num = num and w = w and r = "fst (Add p num w)"
        and evs = "snd (snd (Add p num w))"]) simp_all

lemma reachable_advanced_bar: "reachable (advanced_bar mx wd n)"
  unfolding advanced_bar_def using reachable_bar by (rule reachable_Add)

lemma renderProgressBar_panics_if:
  assumes "currentSaucerSize s < 0 \<or> sub64 (width c) (currentSaucerSize s) < 0"
  shows "panics (fst (renderProgressBar c s w))"
  using assms by (auto simp add: renderProgressBar_def Repeat_def Let_def)

lemma renderProgressBar_panics_no_event:
  assumes "panics (fst (renderProgressBar c s w))"
  shows "snd (renderProgressBar c s w) = []"
  using assms
  by (auto simp add: renderProgressBar_def Repeat_def Let_def split: option.splits if_splits)

lemma renderProgressBar_returns_writes:
  assumes "\<not> panics (fst (renderProgressBar c s w))"
  shows "list_ex (is_write (writer c)) (snd (renderProgressBar c s w))"
  using assms
  by (auto simp add: renderProgressBar_def Repeat_def Let_def split: option.splits if_splits)

lemma renderProgressBar_returns_if:
  assumes "0 \<le> currentSaucerSize s"
    and "int (length (Saucer (theme c))) * currentSaucerSize s \<le> MaxInt64"
    and "0 \<le> sub64 (width c) (currentSaucerSize s)"
    and "int (length (SaucerPadding (theme c))) * sub64 (width c) (currentSaucerSize s) \<le> MaxInt64"
    and "writer c \<noteq> nil_Writer"
  shows "\<not> panics (fst (renderProgressBar c s w))"
  using assms by (auto simp add: renderProgressBar_def Repeat_def Let_def split: option.splits)

lemma Repeat_zero: "Repeat s 0 = Returns []"
  by (simp add: Repeat_def MaxInt64_def)

lemma renderProgressBar_blank_negative_width:
  assumes "currentSaucerSize s = 0" and "width c < 0" and "MinInt64 \<le> width c"
  shows "renderProgressBar c s w = (Panics ''strings: negative Repeat count'', [])"
proof -
  have "is_int64 (width c)" using assms(2,3) by (simp add: is_int64_def MaxInt64_def)
  then have "sub64 (width c) 0 = width c" by (simp add: sub64_def wrap64_id)
  then show ?thesis using assms(1,2)
    by (simp add: renderProgressBar_def Repeat_zero Let_def) (simp add: Repeat_def)
qed

lemma configured_blank_saucer: "currentSaucerSize (state (configured mx options now)) = 0"
  by (simp add: configured_state getBlankState_def)

lemma NewOptions_eq:
  "NewOptions mx options now w =
     (if renderWithBlankState (config (configured mx options now))
      then (case RenderBlank (configured mx options now) w of
              (Panics msg, evs) \<Rightarrow> (Panics msg, evs)
            | (Returns _, evs) \<Rightarrow> (Returns (configured mx options now), evs))
      else (Returns (configured mx options now), []))"
  unfolding NewOptions_def configured_def Let_def by (rule refl)

lemma percent_product_mono:
  assumes "0 < max_c c" "n \<le> n'"
  shows "percent_product c n \<le> percent_product c n'"
proof -
  have m: "0 < float64 (max_c c)" using assms(1) by (rule float64_pos)
  have "float64 n \<le> float64 n'" using assms(2) by (rule float64_mono)
  then have "float64 n / float64 (max_c c) \<le> float64 n' / float64 (max_c c)"
    using m by (simp add: divide_right_mono)
  then have "fdiv (float64 n) (float64 (max_c c)) \<le> fdiv (float64 n') (float64 (max_c c))"
    unfolding fdiv_def by (rule rnd_mono)
  then have "fdiv (float64 n) (float64 (max_c c)) * 100 \<le> fdiv (float64 n') (float64 (max_c c)) * 100"
    by simp
  then show ?thesis unfolding percent_product_def fmul_def by (rule rnd_mono)
qed

lemma percent_of_mono:
  assumes "0 < max_c c" "n \<le> n'" "fits_int64 (percent_product c n')"
  shows "percent_of c n \<le> percent_of c n'"
  unfolding percent_of_product
  using percent_product_mono [OF assms(1,2)] assms(3) by (rule int_of_float_mono)

lemma ratio_le_one:
  assumes "0 < max_c c" "n \<le> max_c c"
  shows "fdiv (float64 n) (float64 (max_c c)) \<le> 1"
proof -
  have m: "0 < float64 (max_c c)" using assms(1) by (rule float64_pos)
  have "float64 n \<le> float64 (max_c c)" using assms(2) by (rule float64_mono)
  then have "float64 n / float64 (max_c c) \<le> 1" using m by simp
  then have "rnd (float64 n / float64 (max_c c)) \<le> rnd 1" by (rule rnd_mono)
  then show ?thesis by (simp add: fdiv_def rnd_one)
qed

lemma percent_product_bounds:
  assumes "0 < max_c c" "0 \<le> n" "n \<le> max_c c"
  shows "0 \<le> percent_product c n" and "percent_product c n \<le> 100"
proof -
  have lo: "0 \<le> fdiv (float64 n) (float64 (max_c c))"
    using assms(1,2) by (simp add: fdiv_nonneg float64_nonneg)
  then show "0 \<le> percent_product c n" by (simp add: percent_product_def fmul_nonneg)
  have "fdiv (float64 n) (float64 (max_c c)) * 100 \<le> 100"
    using ratio_le_one [OF assms(1,3)] by simp
  then have "rnd (fdiv (float64 n) (float64 (max_c c)) * 100) \<le> rnd 100" by (rule rnd_mono)
  then show "percent_product c n \<le> 100" by (simp add: percent_product_def fmul_def rnd_hundred)
qed

lemma percent_of_floor:
  assumes "0 < max_c c" "0 \<le> n" "n \<le> max_c c"
  shows "percent_of c n = spec_percent c n"
proof -
  have b: "0 \<le> percent_product c n" "percent_product c n \<le> 100"
    using assms by (rule percent_product_bounds)+
  then have "fits_int64 (percent_product c n)" by (rule fits_int64_between)
  then have "percent_of c n = \<lfloor>percent_product c n\<rfloor>"
    using b(1) by (simp add: percent_of_product int_of_float_fits trunc_floor)
  then show ?thesis by (simp add: spec_percent_def percent_product_def)
qed

lemma saucer_of_floor:
  assumes "0 < max_c c" "0 \<le> n" "0 \<le> width c" "fits_int64 (saucer_product c n)"
  shows "saucer_of c n = spec_fill_width c n"
proof -
  have "0 \<le> fdiv (float64 n) (float64 (max_c c))"
    using assms(1,2) by (simp add: fdiv_nonneg float64_nonneg)
  then have "0 \<le> saucer_product c n"
    using assms(3) by (simp add: saucer_product_def fmul_nonneg float64_nonneg)
  then have "saucer_of c n = \<lfloor>saucer_product c n\<rfloor>"
    using assms(4) by (simp add: saucer_of_product int_of_float_fits trunc_floor)
  then show ?thesis by (simp add: spec_fill_width_def saucer_product_def)
qed

lemma Add_percent_le:
  assumes "reachable p" "0 < max_c (config p)" "0 \<le> num"
    and "currentNum (state p) + num \<le> MaxInt64"
    and "fits_int64 (percent_product (config p) (currentNum (state p) + num))"
  shows "currentPercent (state p) \<le> currentPercent (state (fst (snd (Add p num w))))"
proof -
  have m: "max_c (config p) \<noteq> 0" using assms(2) by simp
  from reachable_inv [OF assms(1)]
  have cp: "currentPercent (state p) = percent_of (config p) (currentNum (state p))"
    and r: "is_int64 (currentNum (state p))"
    by (simp_all add: tracker_inv_def)
  have "is_int64 (currentNum (state p) + num)"
    using r assms(3,4) by (simp add: is_int64_def)
  then have a: "add64 (currentNum (state p)) num = currentNum (state p) + num"
    by (rule add64_id)
  have "currentPercent (state (fst (snd (Add p num w)))) =
      percent_of (config p) (currentNum (state p) + num)"
    by (simp only: Add_after [OF m] after_Add_fields a)
  moreover have "percent_of (config p) (currentNum (state p))
      \<le> percent_of (config p) (currentNum (state p) + num)"
    using assms(2,3,5) by (simp add: percent_of_mono)
  ultimately show ?thesis using cp by simp
qed

lemma percents_along_sorted:
  assumes "reachable p" "0 < max_c (config p)" "in_range_calls p calls"
  shows "sorted (currentPercent (state p) # percents_along p calls)"
  using assms
proof (induction calls arbitrary: p)
  case Nil
  then show ?case by simp
next
  case (Cons c calls)
  obtain num w where c: "c = (num, w)" by (cases c)
  let ?p = "fst (snd (Add p num w))"
  have n: "0 \<le> num" "currentNum (state p) + num \<le> MaxInt64"
    "fits_int64 (percent_product (config p) (currentNum (state p) + num))"
    and rest: "in_range_calls ?p calls"
    using Cons.prems(3) c by simp_all
  have "reachable ?p" using Cons.prems(1) by (rule reachable_Add)
  moreover have "0 < max_c (config ?p)" using Cons.prems(2) by (simp add: Add_config)
  ultimately have "sorted (currentPercent (state ?p) # percents_along ?p calls)"
    using rest by (rule Cons.IH)
  moreover have "currentPercent (state p) \<le> currentPercent (state ?p)"
    using Cons.prems(1,2) n by (rule Add_percent_le)
  ultimately show ?case unfolding c by (simp only: percents_along.simps sorted2)
qed

section \<open>The claims\<close>

text \<open>
  Claim C1. On every tracker, a call of \<^verbatim>\<open>Add\<close> after which the count is strictly above
  \<open>max\<close> returns the error \<^verbatim>\<open>current number exceeds max\<close>, writes nothing to the sink, and
  leaves the state changed: the count is the machine sum of the old count and the
  argument, and the percentage, the saucer size and the last percentage are the values
  that the conversions of lines 143 and 144 give for the new count, which are the
  truncated products whenever these are in the range of \<^verbatim>\<open>int\<close>.
\<close>

theorem Add_exceeds_max:
  assumes "reachable p"
    and "Add p num w = (r, p', evs)"
    and "max_c (config p) < currentNum (state p')"
  shows "r = Returns (Some (errors_New ''current number exceeds max'')) \<and> evs = [] \<and>
    currentNum (state p') = add64 (currentNum (state p)) num \<and>
    currentPercent (state p') = percent_of (config p) (currentNum (state p')) \<and>
    currentSaucerSize (state p') = saucer_of (config p) (currentNum (state p')) \<and>
    lastPercent (state p') = currentPercent (state p') \<and>
    (fits_int64 (percent_product (config p) (currentNum (state p'))) \<longrightarrow>
       currentPercent (state p') = trunc (percent_product (config p) (currentNum (state p')))) \<and>
    (fits_int64 (saucer_product (config p) (currentNum (state p'))) \<longrightarrow>
       currentSaucerSize (state p') = trunc (saucer_product (config p) (currentNum (state p')))) \<and>
    config p' = config p"
proof (cases "max_c (config p) = 0")
  case True
  from True assms(2) have "p' = p" by (rule Add_max_zero_state)
  moreover from reachable_inv [OF assms(1)] True have "currentNum (state p) = 0"
    by (simp add: tracker_inv_def)
  ultimately show ?thesis using assms(3) True by simp
next
  case False
  have p': "p' = after_Add p num" using Add_after [OF False, of num w] assms(2) by simp
  have n: "currentNum (state p') = add64 (currentNum (state p)) num"
    and cp: "currentPercent (state p') = percent_of (config p) (currentNum (state p'))"
    and cs: "currentSaucerSize (state p') = saucer_of (config p) (currentNum (state p'))"
    and lp: "lastPercent (state p') = currentPercent (state p')"
    and cf: "config p' = config p"
    by (simp_all only: p' after_Add_fields)
  have "max_c (config p) < add64 (currentNum (state p)) num" using assms(3) n by simp
  from Add_exceeds [OF False this, of w] assms(2)
  have r: "r = Returns (Some (errors_New ''current number exceeds max''))" and e: "evs = []"
    by simp_all
  have t1: "fits_int64 (percent_product (config p) (currentNum (state p'))) \<longrightarrow>
       currentPercent (state p') = trunc (percent_product (config p) (currentNum (state p')))"
    using cp by (simp add: percent_of_product int_of_float_fits)
  have t2: "fits_int64 (saucer_product (config p) (currentNum (state p'))) \<longrightarrow>
       currentSaucerSize (state p') = trunc (saucer_product (config p) (currentNum (state p')))"
    using cs by (simp add: saucer_of_product int_of_float_fits)
  from r e n cp cs lp t1 t2 cf show ?thesis by blast
qed

text \<open>Two instances: one step above a maximum of 10, and the call \<^verbatim>\<open>Add(1<<62)\<close> on a
  tracker with \<open>max = 1\<close>, where both products leave the range of \<^verbatim>\<open>int\<close>.\<close>

theorem Add_exceeds_max_witness:
  "reachable (bar 10 40) \<and>
   Add (bar 10 40) 11 quiet_world =
     (Returns (Some (errors_New ''current number exceeds max'')),
      (bar 10 40)\<lparr>state := (state (bar 10 40))\<lparr>currentNum := 11, currentPercent := 110,
         lastPercent := 110, currentSaucerSize := 44\<rparr>\<rparr>, []) \<and>
   Add (bar 1 40) 4611686018427387904 quiet_world =
     (Returns (Some (errors_New ''current number exceeds max'')),
      (bar 1 40)\<lparr>state := (state (bar 1 40))\<lparr>currentNum := 4611686018427387904,
         currentPercent := MinInt64, lastPercent := MinInt64,
         currentSaucerSize := MinInt64\<rparr>\<rparr>, [])"
proof -
  have r: "reachable (bar 10 40)" by (rule reachable_bar)
  obtain res p' evs where a: "Add (bar 10 40) 11 quiet_world = (res, p', evs)"
    by (cases "Add (bar 10 40) 11 quiet_world") auto
  have "fst (snd (Add (bar 10 40) 11 quiet_world)) =
      (bar 10 40)\<lparr>state := (state (bar 10 40))\<lparr>currentNum := 11, currentPercent := 110,
         lastPercent := 110, currentSaucerSize := 44\<rparr>\<rparr>" by code_simp
  with a have p': "p' = (bar 10 40)\<lparr>state := (state (bar 10 40))\<lparr>currentNum := 11,
         currentPercent := 110, lastPercent := 110, currentSaucerSize := 44\<rparr>\<rparr>" by simp
  then have "max_c (config (bar 10 40)) < currentNum (state p')" by (simp add: bar_def)
  from Add_exceeds_max [OF r a this] have "res = Returns (Some (errors_New ''current number exceeds max''))"
    and "evs = []" by simp_all
  with a p' have first: "Add (bar 10 40) 11 quiet_world =
     (Returns (Some (errors_New ''current number exceeds max'')),
      (bar 10 40)\<lparr>state := (state (bar 10 40))\<lparr>currentNum := 11, currentPercent := 110,
         lastPercent := 110, currentSaucerSize := 44\<rparr>\<rparr>, [])" by simp
  have second: "Add (bar 1 40) 4611686018427387904 quiet_world =
     (Returns (Some (errors_New ''current number exceeds max'')),
      (bar 1 40)\<lparr>state := (state (bar 1 40))\<lparr>currentNum := 4611686018427387904,
         currentPercent := MinInt64, lastPercent := MinInt64,
         currentSaucerSize := MinInt64\<rparr>\<rparr>, [])" by code_simp
  from r first second show ?thesis by blast
qed

text \<open>
  Claim C2, as amended. Take a call of \<^verbatim>\<open>Add\<close> with \<open>max \<noteq> 0\<close> after which the count is not
  above \<open>max\<close>. The last percentage is set to the current one, whatever else happens. The
  renderer runs, and its result is the result of the call, exactly when the new percentage
  differs from the last one and is positive; otherwise the call returns no error and
  writes nothing. Hence a call that does not panic writes to the sink exactly in the first
  case.
\<close>

theorem Add_redraw:
  assumes "max_c (config p) \<noteq> 0"
    and "Add p num w = (r, p', evs)"
    and "currentNum (state p') \<le> max_c (config p)"
  shows "lastPercent (state p') = currentPercent (state p') \<and>
    (if shouldRedraw p p' then (r, evs) = renderProgressBar (config p) (state p') w
     else r = Returns None \<and> evs = []) \<and>
    (\<not> panics r \<longrightarrow> (writes_to_sink p evs \<longleftrightarrow> shouldRedraw p p'))"
proof -
  have p': "p' = after_Add p num" using Add_after [OF assms(1), of num w] assms(2) by simp
  have n: "currentNum (state p') = add64 (currentNum (state p)) num"
    and cp: "currentPercent (state p') = percent_of (config p) (add64 (currentNum (state p)) num)"
    and lp: "lastPercent (state p') = percent_of (config p) (add64 (currentNum (state p)) num)"
    by (simp_all only: p' after_Add_fields)
  have le: "add64 (currentNum (state p)) num \<le> max_c (config p)" using assms(3) n by simp
  have last: "lastPercent (state p') = currentPercent (state p')" using cp lp by simp
  have a: "(r, p', evs) =
    (if shouldRedraw p p'
     then (fst (renderProgressBar (config p) (state p') w), p',
           snd (renderProgressBar (config p) (state p') w))
     else (Returns None, p', []))"
  proof -
    have "Add p num w = (r, after_Add p num, evs)" using assms(2) p' by simp
    moreover have "shouldRedraw p (after_Add p num) \<longleftrightarrow>
      percent_of (config p) (add64 (currentNum (state p)) num) \<noteq> lastPercent (state p) \<and>
      0 < percent_of (config p) (add64 (currentNum (state p)) num)"
      by (simp only: shouldRedraw_def after_Add_fields)
    ultimately show ?thesis
      using Add_not_exceeding [OF assms(1) le, of w] unfolding p' by simp
  qed
  show ?thesis
  proof (cases "shouldRedraw p p'")
    case True
    with a have re: "(r, evs) = renderProgressBar (config p) (state p') w" by simp
    then have r: "r = fst (renderProgressBar (config p) (state p') w)"
      and e: "evs = snd (renderProgressBar (config p) (state p') w)"
      by (metis fst_conv, metis snd_conv)
    have "\<not> panics r \<longrightarrow> writes_to_sink p evs"
      unfolding r e writes_to_sink_def by (simp add: renderProgressBar_returns_writes)
    with True re last show ?thesis by simp
  next
    case False
    with a have "r = Returns None" and "evs = []" by simp_all
    with False last show ?thesis by (simp add: writes_to_sink_def)
  qed
qed

theorem Add_redraw_witness:
  "max_c (config (bar 100 10)) \<noteq> 0 \<and>
   Add (bar 100 10) 30 quiet_world =
     (Returns None, advanced_bar 100 10 30, snd (snd (Add (bar 100 10) 30 quiet_world))) \<and>
   currentNum (state (advanced_bar 100 10 30)) \<le> max_c (config (bar 100 10)) \<and>
   currentSaucerSize (state (advanced_bar 100 10 30)) = 3 \<and>
   lastPercent (state (advanced_bar 100 10 30)) = currentPercent (state (advanced_bar 100 10 30)) \<and>
   shouldRedraw (bar 100 10) (advanced_bar 100 10 30) \<and>
   writes_to_sink (bar 100 10) (snd (snd (Add (bar 100 10) 30 quiet_world)))"
proof -
  have m: "max_c (config (bar 100 10)) \<noteq> 0" by (simp add: bar_def)
  have r: "fst (Add (bar 100 10) 30 quiet_world) = Returns None" by code_simp
  then have a: "Add (bar 100 10) 30 quiet_world =
     (Returns None, advanced_bar 100 10 30, snd (snd (Add (bar 100 10) 30 quiet_world)))"
    by (simp add: advanced_bar_def prod_eq_iff)
  have le: "currentNum (state (advanced_bar 100 10 30)) \<le> max_c (config (bar 100 10))"
    by code_simp
  have s: "currentSaucerSize (state (advanced_bar 100 10 30)) = 3" by code_simp
  have sr: "shouldRedraw (bar 100 10) (advanced_bar 100 10 30)" by code_simp
  from Add_redraw [OF m a le] m a le s sr show ?thesis by simp
qed

text \<open>
  The claim as stated fails when the width is negative: the percentage goes from 0 to 50,
  and the call panics in \<^verbatim>\<open>strings.Repeat\<close> before it writes.
\<close>

theorem Add_redraw_counterexample:
  "NewOptions 10 [OptionSetWidth (- 1)] 0 quiet_world = (Returns (bar 10 (- 1)), []) \<and>
   max_c (config (bar 10 (- 1))) \<noteq> 0 \<and>
   Add (bar 10 (- 1)) 5 quiet_world =
     (Panics ''strings: negative Repeat count'', advanced_bar 10 (- 1) 5, []) \<and>
   currentNum (state (advanced_bar 10 (- 1) 5)) \<le> max_c (config (bar 10 (- 1))) \<and>
   lastPercent (state (bar 10 (- 1))) = 0 \<and>
   currentPercent (state (advanced_bar 10 (- 1) 5)) = 50 \<and>
   shouldRedraw (bar 10 (- 1)) (advanced_bar 10 (- 1) 5) \<and>
   \<not> writes_to_sink (bar 10 (- 1)) (snd (snd (Add (bar 10 (- 1)) 5 quiet_world)))"
proof -
  have "NewOptions 10 [OptionSetWidth (- 1)] 0 quiet_world = (Returns (bar 10 (- 1)), [])"
    by (rule NewOptions_bar)
  moreover have "max_c (config (bar 10 (- 1))) \<noteq> 0" by (simp add: bar_def)
  moreover have a: "Add (bar 10 (- 1)) 5 quiet_world =
     (Panics ''strings: negative Repeat count'', advanced_bar 10 (- 1) 5, [])" by code_simp
  moreover have "currentNum (state (advanced_bar 10 (- 1) 5)) \<le> max_c (config (bar 10 (- 1)))"
    by code_simp
  moreover have "lastPercent (state (bar 10 (- 1))) = 0" by (simp add: bar_def getBlankState_def)
  moreover have "currentPercent (state (advanced_bar 10 (- 1) 5)) = 50" by code_simp
  moreover have "shouldRedraw (bar 10 (- 1)) (advanced_bar 10 (- 1) 5)" by code_simp
  moreover have "\<not> writes_to_sink (bar 10 (- 1)) (snd (snd (Add (bar 10 (- 1)) 5 quiet_world)))"
    by (simp add: a writes_to_sink_def)
  ultimately show ?thesis by blast
qed

text \<open>
  Claim C3, as amended. After a call of \<^verbatim>\<open>Add\<close> that returns no error on a tracker with
  \<open>0 < max\<close>, the percentage is the \<^verbatim>\<open>float64\<close> product of the ratio and 100, and the saucer
  size the \<^verbatim>\<open>float64\<close> product of the ratio and the width, each truncated towards zero,
  whenever the product is in the range of \<^verbatim>\<open>int\<close>. When the count is not negative, the
  percentage is the floor of its product; so is the saucer size when, in addition, the
  width is not negative and the product is in range. In the scenario \<^verbatim>\<open>NewOptions(100,
  OptionSetWidth(10))\<close>, \<^verbatim>\<open>Add(30)\<close> the saucer size is 3 and the line written has three
  saucers and seven padding cells between the borders.
\<close>

theorem Add_percent_and_fill:
  assumes "0 < max_c (config p)"
    and "Add p num w = (Returns None, p', evs)"
  shows "(fits_int64 (percent_product (config p) (currentNum (state p'))) \<longrightarrow>
       currentPercent (state p') = trunc (percent_product (config p) (currentNum (state p')))) \<and>
    (fits_int64 (saucer_product (config p) (currentNum (state p'))) \<longrightarrow>
       currentSaucerSize (state p') = trunc (saucer_product (config p) (currentNum (state p')))) \<and>
    (0 \<le> currentNum (state p') \<longrightarrow>
       currentPercent (state p') = spec_percent (config p) (currentNum (state p'))) \<and>
    (0 \<le> currentNum (state p') \<and> 0 \<le> width (config p) \<and>
     fits_int64 (saucer_product (config p) (currentNum (state p'))) \<longrightarrow>
       currentSaucerSize (state p') = spec_fill_width (config p) (currentNum (state p'))) \<and>
    NewOptions 100 [OptionSetWidth 10] 0 quiet_world = (Returns (bar 100 10), []) \<and>
    Add (bar 100 10) 30 quiet_world =
      (Returns None, advanced_bar 100 10 30,
       [WriteString os_Stdout
          ([CHR 0x0D] @ ''  30% '' @ ''|'' @ concat (replicate 3 (Saucer defaultTheme))
           @ concat (replicate 7 (SaucerPadding defaultTheme)) @ ''|''
           @ '' [5s:11s]            ''),
        Sync os_Stdout]) \<and>
    currentSaucerSize (state (advanced_bar 100 10 30)) = 3"
proof -
  have m: "max_c (config p) \<noteq> 0" using assms(1) by simp
  have p': "p' = after_Add p num" using Add_after [OF m, of num w] assms(2) by simp
  have n: "currentNum (state p') = add64 (currentNum (state p)) num"
    and cp: "currentPercent (state p') = percent_of (config p) (currentNum (state p'))"
    and cs: "currentSaucerSize (state p') = saucer_of (config p) (currentNum (state p'))"
    by (simp_all only: p' after_Add_fields)
  have le: "currentNum (state p') \<le> max_c (config p)"
  proof (rule ccontr)
    assume "\<not> currentNum (state p') \<le> max_c (config p)"
    then have "max_c (config p) < add64 (currentNum (state p)) num" using n by simp
    from Add_exceeds(1) [OF m this, of w] assms(2) show False by simp
  qed
  have t1: "fits_int64 (percent_product (config p) (currentNum (state p'))) \<longrightarrow>
       currentPercent (state p') = trunc (percent_product (config p) (currentNum (state p')))"
    using cp by (simp add: percent_of_product int_of_float_fits)
  have t2: "fits_int64 (saucer_product (config p) (currentNum (state p'))) \<longrightarrow>
       currentSaucerSize (state p') = trunc (saucer_product (config p) (currentNum (state p')))"
    using cs by (simp add: saucer_of_product int_of_float_fits)
  have fl: "0 \<le> currentNum (state p') \<longrightarrow>
       currentPercent (state p') = spec_percent (config p) (currentNum (state p'))"
    using cp assms(1) le by (simp add: percent_of_floor)
  have fw: "0 \<le> currentNum (state p') \<and> 0 \<le> width (config p) \<and>
     fits_int64 (saucer_product (config p) (currentNum (state p'))) \<longrightarrow>
       currentSaucerSize (state p') = spec_fill_width (config p) (currentNum (state p'))"
    using cs assms(1) by (simp add: saucer_of_floor)
  have s1: "NewOptions 100 [OptionSetWidth 10] 0 quiet_world = (Returns (bar 100 10), [])"
    by (rule NewOptions_bar)
  have s2: "Add (bar 100 10) 30 quiet_world =
      (Returns None, advanced_bar 100 10 30,
       [WriteString os_Stdout
          ([CHR 0x0D] @ ''  30% '' @ ''|'' @ concat (replicate 3 (Saucer defaultTheme))
           @ concat (replicate 7 (SaucerPadding defaultTheme)) @ ''|''
           @ '' [5s:11s]            ''),
        Sync os_Stdout])"
    by code_simp
  have s3: "currentSaucerSize (state (advanced_bar 100 10 30)) = 3" by code_simp
  from t1 t2 fl fw s1 s2 s3 show ?thesis by blast
qed

text \<open>
  The instance 29 of 100: the call succeeds and stores 28, the floor of the \<^verbatim>\<open>float64\<close>
  product 28.999999999999996; the floor of the exact quotient would be 29.
\<close>

theorem Add_percent_and_fill_witness:
  "0 < max_c (config (bar 100 40)) \<and>
   Add (bar 100 40) 29 quiet_world =
     (Returns None, advanced_bar 100 40 29, snd (snd (Add (bar 100 40) 29 quiet_world))) \<and>
   currentNum (state (advanced_bar 100 40 29)) = 29 \<and>
   currentPercent (state (advanced_bar 100 40 29)) = 28 \<and>
   spec_percent (config (bar 100 40)) 29 = 28 \<and>
   currentSaucerSize (state (advanced_bar 100 40 29)) = 11 \<and>
   spec_fill_width (config (bar 100 40)) 29 = 11 \<and>
   \<lfloor>29 / 100 * 100 :: rat\<rfloor> = 29"
proof -
  have m: "0 < max_c (config (bar 100 40))" by (simp add: bar_def)
  have r: "fst (Add (bar 100 40) 29 quiet_world) = Returns None" by code_simp
  then have a: "Add (bar 100 40) 29 quiet_world =
     (Returns None, advanced_bar 100 40 29, snd (snd (Add (bar 100 40) 29 quiet_world)))"
    by (simp add: advanced_bar_def prod_eq_iff)
  have n: "currentNum (state (advanced_bar 100 40 29)) = 29" by code_simp
  have v: "currentPercent (state (advanced_bar 100 40 29)) = 28" by code_simp
  have f: "currentSaucerSize (state (advanced_bar 100 40 29)) = 11" by code_simp
  have w: "0 \<le> width (config (bar 100 40))" by (simp add: bar_def)
  have fi: "fits_int64 (saucer_product (config (bar 100 40)) 29)" by code_simp
  have e: "\<lfloor>29 / 100 * 100 :: rat\<rfloor> = 29" by simp
  from Add_percent_and_fill [OF m a] m a n v f w fi e show ?thesis by simp
qed

text \<open>
  The claim as stated fails on a negative count: \<^verbatim>\<open>Add(-1)\<close> on a fresh tracker with
  \<open>max = 3\<close> succeeds and stores the percentage -33 and the saucer size -13, where the
  floors are -34 and -14, in \<^verbatim>\<open>float64\<close> and in exact arithmetic alike.
\<close>

theorem Add_percent_and_fill_counterexample:
  "0 < max_c (config (bar 3 40)) \<and>
   Add (bar 3 40) (- 1) quiet_world = (Returns None, advanced_bar 3 40 (- 1), []) \<and>
   currentNum (state (advanced_bar 3 40 (- 1))) = - 1 \<and>
   currentPercent (state (advanced_bar 3 40 (- 1))) = - 33 \<and>
   spec_percent (config (bar 3 40)) (- 1) = - 34 \<and>
   \<lfloor>(- 1) / 3 * 100 :: rat\<rfloor> = - 34 \<and>
   currentSaucerSize (state (advanced_bar 3 40 (- 1))) = - 13 \<and>
   spec_fill_width (config (bar 3 40)) (- 1) = - 14 \<and>
   \<lfloor>(- 1) / 3 * 40 :: rat\<rfloor> = - 14"
proof -
  have "0 < max_c (config (bar 3 40))" by (simp add: bar_def)
  moreover have "Add (bar 3 40) (- 1) quiet_world = (Returns None, advanced_bar 3 40 (- 1), [])"
    by code_simp
  moreover have "currentNum (state (advanced_bar 3 40 (- 1))) = - 1" by code_simp
  moreover have "currentPercent (state (advanced_bar 3 40 (- 1))) = - 33" by code_simp
  moreover have "spec_percent (config (bar 3 40)) (- 1) = - 34" by code_simp
  moreover have "\<lfloor>(- 1) / 3 * 100 :: rat\<rfloor> = - 34" by code_simp
  moreover have "currentSaucerSize (state (advanced_bar 3 40 (- 1))) = - 13" by code_simp
  moreover have "spec_fill_width (config (bar 3 40)) (- 1) = - 14" by code_simp
  moreover have "\<lfloor>(- 1) / 3 * 40 :: rat\<rfloor> = - 14" by code_simp
  ultimately show ?thesis by blast
qed

text \<open>
  Claim C4. With \<open>max = 0\<close>, \<^verbatim>\<open>Add\<close> returns the error \<^verbatim>\<open>max must be greater than 0\<close>,
  returns the tracker as it was, every field of the state included, and writes nothing to
  the sink.
\<close>

theorem Add_max_zero:
  assumes "max_c (config p) = 0"
  shows "Add p num w = (Returns (Some (errors_New ''max must be greater than 0'')), p, [])"
  using assms by (simp add: Add_def)

theorem Add_max_zero_witness:
  "max_c (config (bar 0 40)) = 0 \<and>
   Add (bar 0 40) 7 quiet_world =
     (Returns (Some (errors_New ''max must be greater than 0'')), bar 0 40, [])"
proof -
  have "max_c (config (bar 0 40)) = 0" by (simp add: bar_def)
  then show ?thesis using Add_max_zero [of "bar 0 40" 7 quiet_world] by simp
qed

text \<open>
  Claim C5, as amended. On a reachable tracker with \<open>0 < max\<close>, a call of \<^verbatim>\<open>Add\<close> with a
  non-negative argument leaves the percentage at least as large as it was, whatever the
  call returns, provided that the sum of the count and the argument does not pass
  \<open>MaxInt64\<close> and that the new percentage product is in the range of \<^verbatim>\<open>int\<close>. Hence along
  every sequence of such calls the percentages, from the one before the first call on,
  never decrease.
\<close>

theorem Add_percent_monotone:
  assumes "reachable p"
    and "0 < max_c (config p)"
  shows "(0 \<le> num \<and> currentNum (state p) + num \<le> MaxInt64 \<and>
          fits_int64 (percent_product (config p) (currentNum (state p) + num)) \<longrightarrow>
            currentPercent (state p) \<le> currentPercent (state (fst (snd (Add p num w))))) \<and>
         (in_range_calls p calls \<longrightarrow>
            sorted (currentPercent (state p) # percents_along p calls))"
  using assms Add_percent_le [of p num w] percents_along_sorted [of p calls] by blast

text \<open>The instance 29, 1, 0, 70 on a fresh tracker with \<open>max = 100\<close>, continued by one more
  call after the maximum is passed.\<close>

theorem Add_percent_monotone_witness:
  "reachable (bar 100 40) \<and> 0 < max_c (config (bar 100 40)) \<and>
   in_range_calls (bar 100 40)
     [(29::int, quiet_world), (1, quiet_world), (0, quiet_world), (70, quiet_world), (5, quiet_world)] \<and>
   percents_along (bar 100 40)
     [(29::int, quiet_world), (1, quiet_world), (0, quiet_world), (70, quiet_world), (5, quiet_world)]
     = [28, 30, 30, 100, 105] \<and>
   sorted (currentPercent (state (bar 100 40)) #
     percents_along (bar 100 40)
       [(29::int, quiet_world), (1, quiet_world), (0, quiet_world), (70, quiet_world), (5, quiet_world)]) \<and>
   currentPercent (state (bar 100 40))
     \<le> currentPercent (state (fst (snd (Add (bar 100 40) 29 quiet_world))))"
proof -
  have m: "0 < max_c (config (bar 100 40))" by (simp add: bar_def)
  have l: "in_range_calls (bar 100 40)
     [(29::int, quiet_world), (1, quiet_world), (0, quiet_world), (70, quiet_world), (5, quiet_world)]"
    by code_simp
  have v: "percents_along (bar 100 40)
     [(29::int, quiet_world), (1, quiet_world), (0, quiet_world), (70, quiet_world), (5, quiet_world)]
     = [28, 30, 30, 100, 105]" by code_simp
  have n: "0 \<le> (29::int) \<and> currentNum (state (bar 100 40)) + 29 \<le> MaxInt64 \<and>
          fits_int64 (percent_product (config (bar 100 40)) (currentNum (state (bar 100 40)) + 29))"
    by code_simp
  from Add_percent_monotone [OF reachable_bar m, where num = 29 and w = quiet_world and calls =
      "[(29::int, quiet_world), (1, quiet_world), (0, quiet_world), (70, quiet_world), (5, quiet_world)]"]
    reachable_bar m l v n
  show ?thesis by simp
qed

text \<open>
  The claim as stated fails when the count wraps around: on a tracker whose \<open>max\<close> is
  \<open>MaxInt64\<close>, \<^verbatim>\<open>Add(MaxInt64)\<close> returns no error and stores the percentage 100, and the
  following \<^verbatim>\<open>Add(1)\<close> returns no error either, takes the count to \<open>MinInt64\<close> and the
  percentage to -100.
\<close>

theorem Add_percent_monotone_counterexample:
  "reachable (advanced_bar 9223372036854775807 40 9223372036854775807) \<and>
   0 < max_c (config (advanced_bar 9223372036854775807 40 9223372036854775807)) \<and>
   fst (Add (bar 9223372036854775807 40) 9223372036854775807 quiet_world) = Returns None \<and>
   currentNum (state (advanced_bar 9223372036854775807 40 9223372036854775807))
     = 9223372036854775807 \<and>
   currentPercent (state (advanced_bar 9223372036854775807 40 9223372036854775807)) = 100 \<and>
   (0::int) \<le> 1 \<and>
   Add (advanced_bar 9223372036854775807 40 9223372036854775807) 1 quiet_world =
     (Returns None,
      (advanced_bar 9223372036854775807 40 9223372036854775807)
        \<lparr>state := (state (advanced_bar 9223372036854775807 40 9223372036854775807))
           \<lparr>currentNum := - 9223372036854775808, currentPercent := - 100,
            lastPercent := - 100, currentSaucerSize := - 40\<rparr>\<rparr>,
      [])"
proof -
  have "reachable (advanced_bar 9223372036854775807 40 9223372036854775807)"
    by (rule reachable_advanced_bar)
  moreover have "0 < max_c (config (advanced_bar 9223372036854775807 40 9223372036854775807))"
    by code_simp
  moreover have "fst (Add (bar 9223372036854775807 40) 9223372036854775807 quiet_world) = Returns None"
    by code_simp
  moreover have "currentNum (state (advanced_bar 9223372036854775807 40 9223372036854775807))
     = 9223372036854775807" by code_simp
  moreover have "currentPercent (state (advanced_bar 9223372036854775807 40 9223372036854775807)) = 100"
    by code_simp
  moreover have "(0::int) \<le> 1" by simp
  moreover have "Add (advanced_bar 9223372036854775807 40 9223372036854775807) 1 quiet_world =
     (Returns None,
      (advanced_bar 9223372036854775807 40 9223372036854775807)
        \<lparr>state := (state (advanced_bar 9223372036854775807 40 9223372036854775807))
           \<lparr>currentNum := - 9223372036854775808, currentPercent := - 100,
            lastPercent := - 100, currentSaucerSize := - 40\<rparr>\<rparr>,
      [])" by code_simp
  ultimately show ?thesis by blast
qed

text \<open>
  Claim C6. After \<^verbatim>\<open>Reset\<close> the count, both percentages and the saucer size are zero, the
  start time and the time last shown are the time of the reset, so that the elapsed time of
  a later rendering is counted from the reset, and the configuration is unchanged.
\<close>

theorem Reset_blank:
  "currentNum (state (Reset p now)) = 0 \<and> currentPercent (state (Reset p now)) = 0 \<and>
   lastPercent (state (Reset p now)) = 0 \<and> currentSaucerSize (state (Reset p now)) = 0 \<and>
   startTime (state (Reset p now)) = now \<and> lastShown (state (Reset p now)) = now \<and>
   Since clock (startTime (state (Reset p now))) = clock - now \<and>
   config (Reset p now) = config p"
  by (simp add: Reset_def getBlankState_def Since_def)

text \<open>
  Claim C7. On a reachable tracker with \<open>0 < max\<close>, \<^verbatim>\<open>Add(0)\<close> leaves the percentage as it
  was and writes nothing to the sink; it returns the tracker unchanged. This holds before
  the first call of \<^verbatim>\<open>Add\<close> as well as after it.
\<close>

theorem Add_zero:
  assumes "reachable p"
    and "0 < max_c (config p)"
    and "Add p 0 w = (r, p', evs)"
  shows "currentPercent (state p') = currentPercent (state p) \<and> evs = [] \<and> p' = p"
proof -
  have m: "max_c (config p) \<noteq> 0" using assms(2) by simp
  from reachable_inv [OF assms(1)]
  have i: "currentPercent (state p) = percent_of (config p) (currentNum (state p))"
    "lastPercent (state p) = currentPercent (state p)"
    "currentSaucerSize (state p) = saucer_of (config p) (currentNum (state p))"
    and r: "is_int64 (currentNum (state p))"
    by (simp_all add: tracker_inv_def)
  have z: "add64 (currentNum (state p)) 0 = currentNum (state p)" using r by (rule add64_zero)
  have "after_Add p 0 = p" using i by (simp add: after_Add_def z)
  with Add_after [OF m, of 0 w] assms(3) have p': "p' = p" by simp
  have "snd (snd (Add p 0 w)) = []"
    using m i z by (simp add: Add_def Let_def percent_of_def)
  with assms(3) have "evs = []" by simp
  with p' show ?thesis by simp
qed

theorem Add_zero_witness:
  "reachable (advanced_bar 100 40 29) \<and> 0 < max_c (config (advanced_bar 100 40 29)) \<and>
   currentPercent (state (advanced_bar 100 40 29)) = 28 \<and>
   Add (advanced_bar 100 40 29) 0 quiet_world = (Returns None, advanced_bar 100 40 29, [])"
proof -
  have m: "0 < max_c (config (advanced_bar 100 40 29))" by code_simp
  have v1: "currentPercent (state (advanced_bar 100 40 29)) = 28" by code_simp
  have r: "fst (Add (advanced_bar 100 40 29) 0 quiet_world) = Returns None" by code_simp
  obtain res p' evs where a: "Add (advanced_bar 100 40 29) 0 quiet_world = (res, p', evs)"
    by (cases "Add (advanced_bar 100 40 29) 0 quiet_world") auto
  from Add_zero [OF reachable_advanced_bar m a] a r reachable_advanced_bar m v1
  show ?thesis by simp
qed

text \<open>
  Claim C8. The claim asks for the error \<^verbatim>\<open>max must be greater than 0\<close> whenever \<open>max\<close> is
  negative. The guard of \<^verbatim>\<open>Add\<close> tests \<open>max = 0\<close> only: on a tracker with \<open>max = -5\<close> the call
  \<^verbatim>\<open>Add(-5)\<close> returns no error, stores the percentage 100 and writes a line to the sink.
\<close>

theorem Add_negative_max:
  "NewOptions (- 5) [OptionSetWidth 40] 0 quiet_world = (Returns (bar (- 5) 40), []) \<and>
   max_c (config (bar (- 5) 40)) < 0 \<and>
   fst (Add (bar (- 5) 40) (- 5) quiet_world) = Returns None \<and>
   currentNum (state (advanced_bar (- 5) 40 (- 5))) = - 5 \<and>
   currentPercent (state (advanced_bar (- 5) 40 (- 5))) = 100 \<and>
   currentSaucerSize (state (advanced_bar (- 5) 40 (- 5))) = 40 \<and>
   snd (snd (Add (bar (- 5) 40) (- 5) quiet_world)) =
     [WriteString os_Stdout
        ([CHR 0x0D] @ '' 100% '' @ ''|'' @ concat (replicate 40 (Saucer defaultTheme)) @ ''|''
         @ '' [5s:0s]            ''),
      Sync os_Stdout]"
proof -
  have "NewOptions (- 5) [OptionSetWidth 40] 0 quiet_world = (Returns (bar (- 5) 40), [])"
    by (rule NewOptions_bar)
  moreover have "max_c (config (bar (- 5) 40)) < 0" by (simp add: bar_def)
  moreover have "fst (Add (bar (- 5) 40) (- 5) quiet_world) = Returns None" by code_simp
  moreover have "currentNum (state (advanced_bar (- 5) 40 (- 5))) = - 5" by code_simp
  moreover have "currentPercent (state (advanced_bar (- 5) 40 (- 5))) = 100" by code_simp
  moreover have "currentSaucerSize (state (advanced_bar (- 5) 40 (- 5))) = 40" by code_simp
  moreover have "snd (snd (Add (bar (- 5) 40) (- 5) quiet_world)) =
     [WriteString os_Stdout
        ([CHR 0x0D] @ '' 100% '' @ ''|'' @ concat (replicate 40 (Saucer defaultTheme)) @ ''|''
         @ '' [5s:0s]            ''),
      Sync os_Stdout]" by code_simp
  ultimately show ?thesis by blast
qed

text \<open>
  Claim C9, as amended. \<^verbatim>\<open>NewOptions\<close> never returns an error: for every \<open>max\<close> and every
  sequence of options it returns the configured tracker, unless the blank rendering is
  switched on and panics; then no tracker is returned. The blank rendering panics when the
  width is negative, and also, for instance, when the writer is nil or when the padding
  repeated over the width is longer than an \<^verbatim>\<open>int\<close> can say. With the blank rendering
  switched off, or switched on in the default configuration, the tracker is always
  returned. What the blank rendering returns, an error of the sink included, is
  discarded.
\<close>

theorem NewOptions_returns:
  "(\<not> renderWithBlankState (config (configured mx options now)) \<longrightarrow>
      NewOptions mx options now w = (Returns (configured mx options now), [])) \<and>
   (renderWithBlankState (config (configured mx options now)) \<and>
    \<not> panics (fst (RenderBlank (configured mx options now) w)) \<longrightarrow>
      NewOptions mx options now w =
        (Returns (configured mx options now), snd (RenderBlank (configured mx options now) w))) \<and>
   (renderWithBlankState (config (configured mx options now)) \<and>
    panics (fst (RenderBlank (configured mx options now) w)) \<longrightarrow>
      panics (fst (NewOptions mx options now w)) \<and> snd (NewOptions mx options now w) = []) \<and>
   (renderWithBlankState (config (configured mx options now)) \<and>
    width (config (configured mx options now)) < 0 \<and>
    MinInt64 \<le> width (config (configured mx options now)) \<longrightarrow>
      NewOptions mx options now w = (Panics ''strings: negative Repeat count'', [])) \<and>
   NewOptions mx [OptionSetRenderBlankState True] now w =
     (Returns (configured mx [OptionSetRenderBlankState True] now),
      snd (RenderBlank (configured mx [OptionSetRenderBlankState True] now) w)) \<and>
   panics (fst (NewOptions mx [OptionSetWriter nil_Writer, OptionSetRenderBlankState True] now w)) \<and>
   panics (fst (NewOptions mx
     [OptionSetWidth 4611686018427387904,
      OptionSetTheme \<lparr>Saucer = ''#'', SaucerPadding = ''--'', BarStart = ''|'', BarEnd = ''|''\<rparr>,
      OptionSetRenderBlankState True] now w))"
proof -
  let ?b = "configured mx options now"
  have c1: "\<not> renderWithBlankState (config ?b) \<longrightarrow>
      NewOptions mx options now w = (Returns ?b, [])"
    by (simp add: NewOptions_eq)
  have c2: "renderWithBlankState (config ?b) \<and> \<not> panics (fst (RenderBlank ?b w)) \<longrightarrow>
      NewOptions mx options now w = (Returns ?b, snd (RenderBlank ?b w))"
    by (cases "RenderBlank ?b w"; cases "fst (RenderBlank ?b w)") (auto simp add: NewOptions_eq)
  have c3: "renderWithBlankState (config ?b) \<and> panics (fst (RenderBlank ?b w)) \<longrightarrow>
      panics (fst (NewOptions mx options now w)) \<and> snd (NewOptions mx options now w) = []"
  proof (intro impI, elim conjE)
    assume rb: "renderWithBlankState (config ?b)" and pa: "panics (fst (RenderBlank ?b w))"
    from pa have "snd (RenderBlank ?b w) = []"
      unfolding RenderBlank_def by (rule renderProgressBar_panics_no_event)
    with rb pa show "panics (fst (NewOptions mx options now w)) \<and> snd (NewOptions mx options now w) = []"
      by (cases "RenderBlank ?b w"; cases "fst (RenderBlank ?b w)") (auto simp add: NewOptions_eq)
  qed
  have c4: "renderWithBlankState (config ?b) \<and> width (config ?b) < 0 \<and>
      MinInt64 \<le> width (config ?b) \<longrightarrow>
      NewOptions mx options now w = (Panics ''strings: negative Repeat count'', [])"
  proof (intro impI, elim conjE)
    assume rb: "renderWithBlankState (config ?b)" and neg: "width (config ?b) < 0"
      and lo: "MinInt64 \<le> width (config ?b)"
    have "RenderBlank ?b w = (Panics ''strings: negative Repeat count'', [])"
      unfolding RenderBlank_def
      using configured_blank_saucer neg lo by (rule renderProgressBar_blank_negative_width)
    with rb show "NewOptions mx options now w = (Panics ''strings: negative Repeat count'', [])"
      by (simp add: NewOptions_eq)
  qed
  let ?d = "configured mx [OptionSetRenderBlankState True] now"
  have "\<not> panics (fst (RenderBlank ?d w))"
    by (simp add: RenderBlank_def renderProgressBar_def configured_def getBlankState_def
        defaultTheme_def os_Stdout_def Repeat_def sub64_def wrap64_def MaxInt64_def Let_def
        split: option.splits)
  moreover have "renderWithBlankState (config ?d)" by (simp add: configured_def)
  ultimately have c5: "NewOptions mx [OptionSetRenderBlankState True] now w =
     (Returns ?d, snd (RenderBlank ?d w))"
    by (cases "RenderBlank ?d w"; cases "fst (RenderBlank ?d w)") (auto simp add: NewOptions_eq)
  have c6: "panics (fst (NewOptions mx [OptionSetWriter nil_Writer, OptionSetRenderBlankState True]
      now w))"
    by (simp add: NewOptions_def RenderBlank_def renderProgressBar_def getBlankState_def
        defaultTheme_def Repeat_def sub64_def wrap64_def MaxInt64_def Let_def)
  have c7: "panics (fst (NewOptions mx
     [OptionSetWidth 4611686018427387904,
      OptionSetTheme \<lparr>Saucer = ''#'', SaucerPadding = ''--'', BarStart = ''|'', BarEnd = ''|''\<rparr>,
      OptionSetRenderBlankState True] now w))"
    by (simp add: NewOptions_def RenderBlank_def renderProgressBar_def getBlankState_def
        Repeat_def sub64_def wrap64_def MaxInt64_def Let_def)
  from c1 c2 c3 c4 c5 c6 c7 show ?thesis by blast
qed

text \<open>
  An instance with a sink that rejects the write: the error is dropped and the tracker
  returned.
\<close>

theorem NewOptions_returns_witness:
  "fst (NewOptions 0 [OptionSetRenderBlankState True] 0 broken_world) =
     Returns (configured 0 [OptionSetRenderBlankState True] 0) \<and>
   fst (RenderBlank (configured 0 [OptionSetRenderBlankState True] 0) broken_world) =
     Returns (Some (sink_error ''closed pipe'')) \<and>
   max_c (config (configured 0 [OptionSetRenderBlankState True] 0)) = 0"
proof -
  have r: "fst (RenderBlank (configured 0 [OptionSetRenderBlankState True] 0) broken_world) =
     Returns (Some (sink_error ''closed pipe''))" by code_simp
  have m: "max_c (config (configured 0 [OptionSetRenderBlankState True] 0)) = 0"
    by (simp add: configured_def)
  from NewOptions_returns [of 0 "[OptionSetRenderBlankState True]" 0 broken_world] r m
  show ?thesis by simp
qed

text \<open>
  The claim as stated fails for the options \<^verbatim>\<open>OptionSetWidth(-1)\<close>,
  \<^verbatim>\<open>OptionSetRenderBlankState(true)\<close>: the blank rendering asks for -1 padding cells and
  panics, so no tracker is returned.
\<close>

theorem NewOptions_returns_counterexample:
  "NewOptions 10 [OptionSetWidth (- 1), OptionSetRenderBlankState True] 0 quiet_world =
     (Panics ''strings: negative Repeat count'', [])"
  by code_simp

text \<open>
  Claim C10, as amended. The renderer is not total: when the saucer size is negative, or
  above the width by no more than \<open>2\<^sup>6\<^sup>3\<close> (so that the machine difference of the two is
  negative; this is so whenever the width is not negative), the renderer panics in a
  repetition, and so does \<^verbatim>\<open>RenderBlank\<close>. Such a state is reachable: on a tracker with
  \<open>max = 10\<close> and width 40, \<^verbatim>\<open>Add(11)\<close> returns the exceeds-max error and leaves the saucer
  size 44, and \<^verbatim>\<open>RenderBlank\<close> then panics on a negative count instead of returning an
  error.
\<close>

theorem render_panics:
  "(currentSaucerSize s < 0 \<or>
    width c < currentSaucerSize s \<and> currentSaucerSize s - width c \<le> 9223372036854775808 \<longrightarrow>
      panics (fst (renderProgressBar c s w))) \<and>
   (currentSaucerSize (state p) < 0 \<or>
    width (config p) < currentSaucerSize (state p) \<and>
    currentSaucerSize (state p) - width (config p) \<le> 9223372036854775808 \<longrightarrow>
      panics (fst (RenderBlank p w))) \<and>
   reachable (advanced_bar 10 40 11) \<and>
   fst (Add (bar 10 40) 11 quiet_world) =
     Returns (Some (errors_New ''current number exceeds max'')) \<and>
   currentSaucerSize (state (advanced_bar 10 40 11)) = 44 \<and>
   RenderBlank (advanced_bar 10 40 11) quiet_world =
     (Panics ''strings: negative Repeat count'', [])"
proof -
  have g: "\<And>c s w. currentSaucerSize s < 0 \<or>
      width c < currentSaucerSize s \<and> currentSaucerSize s - width c \<le> 9223372036854775808 \<Longrightarrow>
      panics (fst (renderProgressBar c s w))"
  proof -
    fix c :: config and s :: state and w :: world
    assume "currentSaucerSize s < 0 \<or>
      width c < currentSaucerSize s \<and> currentSaucerSize s - width c \<le> 9223372036854775808"
    then have "currentSaucerSize s < 0 \<or> sub64 (width c) (currentSaucerSize s) < 0"
      using sub64_negative [of "width c" "currentSaucerSize s"] by blast
    then show "panics (fst (renderProgressBar c s w))" by (rule renderProgressBar_panics_if)
  qed
  have "fst (Add (bar 10 40) 11 quiet_world) =
     Returns (Some (errors_New ''current number exceeds max''))" by code_simp
  moreover have "currentSaucerSize (state (advanced_bar 10 40 11)) = 44" by code_simp
  moreover have "RenderBlank (advanced_bar 10 40 11) quiet_world =
     (Panics ''strings: negative Repeat count'', [])" by code_simp
  ultimately show ?thesis
    using g [of s c w] g [of "state p" "config p" w] reachable_advanced_bar [of 10 40 11]
    unfolding RenderBlank_def by blast
qed

text \<open>The same state, through the implication.\<close>

theorem render_panics_witness:
  "width (config (advanced_bar 10 40 11)) < currentSaucerSize (state (advanced_bar 10 40 11)) \<and>
   panics (fst (RenderBlank (advanced_bar 10 40 11) quiet_world))"
proof -
  have "width (config (advanced_bar 10 40 11)) < currentSaucerSize (state (advanced_bar 10 40 11))"
    by code_simp
  moreover have "currentSaucerSize (state (advanced_bar 10 40 11))
      - width (config (advanced_bar 10 40 11)) \<le> 9223372036854775808"
    by code_simp
  ultimately show ?thesis
    using render_panics [where p = "advanced_bar 10 40 11" and w = quiet_world] by blast
qed

text \<open>
  The claim as stated fails for a small excess: on a tracker with \<open>max = 100\<close> and width
  10, \<^verbatim>\<open>Add(101)\<close> returns the exceeds-max error and leaves the saucer size 10, which is
  not above the width, and \<^verbatim>\<open>RenderBlank\<close> then writes its line and returns no error.
\<close>

theorem render_panics_counterexample:
  "fst (Add (bar 100 10) 101 quiet_world) =
     Returns (Some (errors_New ''current number exceeds max'')) \<and>
   currentNum (state (advanced_bar 100 10 101)) = 101 \<and>
   currentSaucerSize (state (advanced_bar 100 10 101)) = 10 \<and>
   width (config (advanced_bar 100 10 101)) = 10 \<and>
   fst (RenderBlank (advanced_bar 100 10 101) quiet_world) = Returns None \<and>
   \<not> panics (fst (RenderBlank (advanced_bar 100 10 101) quiet_world))"
proof -
  have "fst (Add (bar 100 10) 101 quiet_world) =
     Returns (Some (errors_New ''current number exceeds max''))" by code_simp
  moreover have "currentNum (state (advanced_bar 100 10 101)) = 101" by code_simp
  moreover have "currentSaucerSize (state (advanced_bar 100 10 101)) = 10" by code_simp
  moreover have "width (config (advanced_bar 100 10 101)) = 10" by code_simp
  moreover have r: "fst (RenderBlank (advanced_bar 100 10 101) quiet_world) = Returns None"
    by code_simp
  moreover have "\<not> panics (fst (RenderBlank (advanced_bar 100 10 101) quiet_world))"
    by (simp add: r)
  ultimately show ?thesis by blast
qed

text \<open>
  Why the excess over the width is bounded in the statement above: with the width
  \<open>MinInt64\<close> the machine difference wraps around. On the tracker \<open>wrapping_bar\<close>,
  \<^verbatim>\<open>Add(-1)\<close> returns no error and leaves the saucer size 2, far above the width; the
  padding count is the wrapped difference \<open>2\<^sup>6\<^sup>3 - 2\<close>, the padding is empty, and
  \<^verbatim>\<open>RenderBlank\<close> does not panic.
\<close>

lemma render_wrapped_difference:
  "NewOptions 4611686018427387904
     [OptionSetWidth MinInt64,
      OptionSetTheme \<lparr>Saucer = ''#'', SaucerPadding = [], BarStart = ''|'', BarEnd = ''|''\<rparr>]
     0 quiet_world = (Returns wrapping_bar, []) \<and>
   fst (Add wrapping_bar (- 1) quiet_world) = Returns None \<and>
   currentSaucerSize (state (fst (snd (Add wrapping_bar (- 1) quiet_world)))) = 2 \<and>
   width (config (fst (snd (Add wrapping_bar (- 1) quiet_world)))) = - 9223372036854775808 \<and>
   \<not> panics (fst (RenderBlank (fst (snd (Add wrapping_bar (- 1) quiet_world))) quiet_world))"
proof -
  let ?p = "fst (snd (Add wrapping_bar (- 1) quiet_world))"
  have "NewOptions 4611686018427387904
     [OptionSetWidth MinInt64,
      OptionSetTheme \<lparr>Saucer = ''#'', SaucerPadding = [], BarStart = ''|'', BarEnd = ''|''\<rparr>]
     0 quiet_world = (Returns wrapping_bar, [])"
    by (simp add: NewOptions_def wrapping_bar_def)
  moreover have "fst (Add wrapping_bar (- 1) quiet_world) = Returns None" by code_simp
  moreover have s: "currentSaucerSize (state ?p) = 2" by code_simp
  moreover have "width (config ?p) = - 9223372036854775808" by code_simp
  moreover have "\<not> panics (fst (RenderBlank ?p quiet_world))"
    unfolding RenderBlank_def
  proof (rule renderProgressBar_returns_if)
    show "0 \<le> currentSaucerSize (state ?p)" by (simp add: s)
    show "int (length (Saucer (theme (config ?p)))) * currentSaucerSize (state ?p) \<le> MaxInt64"
      by code_simp
    show "0 \<le> sub64 (width (config ?p)) (currentSaucerSize (state ?p))" by code_simp
    show "int (length (SaucerPadding (theme (config ?p))))
        * sub64 (width (config ?p)) (currentSaucerSize (state ?p)) \<le> MaxInt64"
      by code_simp
    show "writer (config ?p) \<noteq> nil_Writer" by code_simp
  qed
  ultimately show ?thesis by blast
qed

end
